theory Spec2Isabelle
  imports Main "HOL-Library.AList"
begin

section \<open>Values, documents and exceptions\<close>

text \<open>
  The repository is one Python class, \<^verbatim>\<open>TransactionModel\<close>
  (\<^verbatim>\<open>app/models/transaction_model.py\<close>), whose methods each perform one call on a
  MongoDB collection inside \<^verbatim>\<open>try: ... except PyMongoError\<close>.

  A document is a Python \<^verbatim>\<open>dict\<close> with string keys: an association list, read with
  \<^const>\<open>map_of\<close>, written with \<^const>\<open>AList.update\<close> (an existing key keeps its
  place, a new key goes to the end, as in a \<^verbatim>\<open>dict\<close>) and \<^const>\<open>AList.delete\<close>.
  An \<^verbatim>\<open>ObjectId\<close> is held as its canonical text, 24 lower-case hexadecimal digits;
  a \<^verbatim>\<open>datetime\<close> as a number of clock ticks.
\<close>

datatype val =
    VNull
  | VBool bool
  | VInt int
  | VStr string
  | VOid string
  | VTime nat
  | VDoc "(string \<times> val) list"
  | VArr "val list"

type_synonym doc = "(string \<times> val) list"

text \<open>
  The exceptions that can arise inside the methods. \<^verbatim>\<open>bson.errors.InvalidId\<close> derives
  from \<^verbatim>\<open>bson.errors.BSONError\<close>, which derives from \<^verbatim>\<open>Exception\<close>; it is not a
  \<^verbatim>\<open>pymongo.errors.PyMongoError\<close>. Every error the store itself reports (connection
  failure, write error, duplicate key) is a \<^verbatim>\<open>PyMongoError\<close>; the payload is its text.
\<close>

datatype exn = PyMongoError string | InvalidId string | KeyError string

subsection \<open>Python built-ins\<close>

definition truthy :: "val \<Rightarrow> bool" where
  "truthy v = (case v of
       VNull \<Rightarrow> False
     | VBool b \<Rightarrow> b
     | VInt i \<Rightarrow> i \<noteq> 0
     | VStr s \<Rightarrow> s \<noteq> []
     | VOid h \<Rightarrow> True
     | VTime t \<Rightarrow> True
     | VDoc d \<Rightarrow> d \<noteq> []
     | VArr xs \<Rightarrow> xs \<noteq> [])"

text \<open>\<^verbatim>\<open>d.get(k)\<close> and \<^verbatim>\<open>d.get(k, default)\<close>.\<close>

definition py_get :: "doc \<Rightarrow> string \<Rightarrow> val \<Rightarrow> val" where
  "py_get d k dflt = (case map_of d k of None \<Rightarrow> dflt | Some v \<Rightarrow> v)"

text \<open>\<^verbatim>\<open>d[k]\<close>: a missing key raises \<^verbatim>\<open>KeyError\<close>.\<close>

definition py_item :: "doc \<Rightarrow> string \<Rightarrow> exn + val" where
  "py_item d k = (case map_of d k of None \<Rightarrow> Inl (KeyError k) | Some v \<Rightarrow> Inr v)"

function decimal :: "nat \<Rightarrow> string" where
  "decimal n = (if n < 10 then [''0123456789'' ! n]
                else decimal (n div 10) @ [''0123456789'' ! (n mod 10)])"
  by pat_completeness auto
termination
  by (relation "measure id") auto

text \<open>
  \<^verbatim>\<open>str(v)\<close>. It is exact on the values the methods apply it to (an \<^verbatim>\<open>ObjectId\<close> prints
  its 24 hexadecimal digits) and on strings, \<^verbatim>\<open>None\<close>, booleans and integers; a
  timestamp prints its tick count and a container prints without its contents.
\<close>

fun py_str :: "val \<Rightarrow> string" where
  "py_str (VStr s) = s"
| "py_str (VOid h) = h"
| "py_str VNull = ''None''"
| "py_str (VBool b) = (if b then ''True'' else ''False'')"
| "py_str (VInt i) = (if i < 0 then CHR ''-'' # decimal (nat (- i)) else decimal (nat i))"
| "py_str (VTime t) = decimal t"
| "py_str (VDoc d) = ''{...}''"
| "py_str (VArr xs) = ''[...]''"

subsection \<open>\<^verbatim>\<open>bson.ObjectId\<close>\<close>

definition is_hex :: "char \<Rightarrow> bool" where
  "is_hex c = (c \<in> set ''0123456789abcdefABCDEF'')"

definition lower_hex :: "char \<Rightarrow> char" where
  "lower_hex c =
     (if c = CHR ''A'' then CHR ''a'' else if c = CHR ''B'' then CHR ''b''
      else if c = CHR ''C'' then CHR ''c'' else if c = CHR ''D'' then CHR ''d''
      else if c = CHR ''E'' then CHR ''e'' else if c = CHR ''F'' then CHR ''f'' else c)"

text \<open>
  \<^verbatim>\<open>ObjectId(s)\<close> for a string \<^verbatim>\<open>s\<close>: a string of 24 hexadecimal digits is decoded
  (two strings that differ in letter case give the same identifier); any other string
  raises \<^verbatim>\<open>InvalidId\<close>. A string whose length is not 24 is always refused; among the
  strings of length 24 the library also tolerates white space between bytes, which is
  not modelled.
\<close>

definition ObjectId :: "string \<Rightarrow> exn + string" where
  "ObjectId s = (if length s = 24 \<and> list_all is_hex s then Inr (map lower_hex s)
                 else Inl (InvalidId s))"

text \<open>\<^verbatim>\<open>ObjectId()\<close>: the driver's generator, here the 24 digits of a counter.\<close>

fun hex_of :: "nat \<Rightarrow> nat \<Rightarrow> string" where
  "hex_of 0 n = []"
| "hex_of (Suc k) n = hex_of k (n div 16) @ [''0123456789abcdef'' ! (n mod 16)]"

definition new_ObjectId :: "nat \<Rightarrow> string" where
  "new_ObjectId n = hex_of 24 n"

section \<open>The environment: collection, clock, logger\<close>

text \<open>
  Everything outside the method bodies: the documents of the \<^verbatim>\<open>transactions\<close>
  collection in insertion order, the clock read by \<^verbatim>\<open>datetime.now()\<close>, the counter
  behind \<^verbatim>\<open>ObjectId()\<close>, the lines written by \<^verbatim>\<open>logger.error\<close>, and a fault switch:
  while \<open>store_down\<close> is \<open>Some e\<close> every call on the collection raises
  \<^verbatim>\<open>PyMongoError(e)\<close>.
\<close>

record world =
  transactions :: "doc list"
  clock :: nat
  next_oid :: nat
  store_down :: "string option"
  error_log :: "string list"

text \<open>
  A query \<^verbatim>\<open>{k: v}\<close> selects a document whose field \<^verbatim>\<open>k\<close> equals \<^verbatim>\<open>v\<close>, or is an
  array with \<^verbatim>\<open>v\<close> among its elements.
\<close>

definition matches :: "string \<Rightarrow> val \<Rightarrow> doc \<Rightarrow> bool" where
  "matches k v d = (case map_of d k of
       None \<Rightarrow> False
     | Some (VArr xs) \<Rightarrow> v \<in> set xs \<or> VArr xs = v
     | Some x \<Rightarrow> x = v)"

definition find_one :: "world \<Rightarrow> string \<Rightarrow> val \<Rightarrow> exn + doc option" where
  "find_one w k v = (case store_down w of
       Some e \<Rightarrow> Inl (PyMongoError e)
     | None \<Rightarrow> Inr (List.find (matches k v) (transactions w)))"

definition find_docs :: "world \<Rightarrow> string \<Rightarrow> val \<Rightarrow> exn + doc list" where
  "find_docs w k v = (case store_down w of
       Some e \<Rightarrow> Inl (PyMongoError e)
     | None \<Rightarrow> Inr (filter (matches k v) (transactions w)))"

subsection \<open>Update documents\<close>

text \<open>
  A key of a \<^verbatim>\<open>$set\<close> document is a dotted path. Its first component names a field of
  the document; the remaining ones descend into embedded documents (created when
  absent) and into arrays (by position, padded with nulls). Descending into any other
  value is a write error, as is an empty or \<^verbatim>\<open>$\<close>-prefixed component (positional
  operators are not modelled) and every path that would change \<^verbatim>\<open>_id\<close>.
\<close>

fun split_on :: "char \<Rightarrow> string \<Rightarrow> string list" where
  "split_on c [] = [[]]"
| "split_on c (x # xs) =
     (if x = c then [] # split_on c xs
      else (case split_on c xs of [] \<Rightarrow> [[x]] | u # us \<Rightarrow> (x # u) # us))"

definition array_index :: "string \<Rightarrow> nat option" where
  "array_index k =
     (if k \<noteq> [] \<and> list_all (\<lambda>c. c \<in> set ''0123456789'') k \<and> (k = ''0'' \<or> hd k \<noteq> CHR ''0'')
      then Some (foldl (\<lambda>n c. 10 * n + (of_char c - 48)) 0 k) else None)"

definition list_set :: "nat \<Rightarrow> val \<Rightarrow> val list \<Rightarrow> val list" where
  "list_set i v xs =
     (if i < length xs then xs[i := v] else xs @ replicate (i - length xs) VNull @ [v])"

fun set_in :: "string list \<Rightarrow> val \<Rightarrow> val option \<Rightarrow> exn + val" where
  "set_in [] v cur = Inr v"
| "set_in (k # ks) v None =
     (case set_in ks v None of Inl e \<Rightarrow> Inl e | Inr x \<Rightarrow> Inr (VDoc [(k, x)]))"
| "set_in (k # ks) v (Some (VDoc d)) =
     (case set_in ks v (map_of d k) of
        Inl e \<Rightarrow> Inl e
      | Inr x \<Rightarrow> Inr (VDoc (AList.update k x d)))"
| "set_in (k # ks) v (Some (VArr xs)) =
     (case array_index k of
        None \<Rightarrow> Inl (PyMongoError ''Cannot create field in array element'')
      | Some i \<Rightarrow>
          (case set_in ks v (if i < length xs then Some (xs ! i) else None) of
             Inl e \<Rightarrow> Inl e
           | Inr x \<Rightarrow> Inr (VArr (list_set i x xs))))"
| "set_in (k # ks) v (Some other) = Inl (PyMongoError ''Cannot create field in element'')"

definition valid_component :: "string \<Rightarrow> bool" where
  "valid_component k = (k \<noteq> [] \<and> hd k \<noteq> CHR ''$'')"

definition set_path :: "string \<Rightarrow> val \<Rightarrow> doc \<Rightarrow> exn + doc" where
  "set_path key v d =
     (let p = split_on (CHR ''.'') key in
      if \<not> list_all valid_component p then Inl (PyMongoError ''Invalid update path'')
      else if hd p = ''_id'' then
        (if tl p = [] \<and> map_of d ''_id'' = Some v then Inr d
         else Inl (PyMongoError ''Update would modify the immutable field _id''))
      else (case set_in (tl p) v (map_of d (hd p)) of
              Inl e \<Rightarrow> Inl e
            | Inr x \<Rightarrow> Inr (AList.update (hd p) x d)))"

fun set_all :: "doc \<Rightarrow> doc \<Rightarrow> exn + doc" where
  "set_all [] d = Inr d"
| "set_all ((k, v) # kvs) d =
     (case set_path k v d of Inl e \<Rightarrow> Inl e | Inr d' \<Rightarrow> set_all kvs d')"

text \<open>Two paths of one \<^verbatim>\<open>$set\<close> conflict when one is a proper prefix of the other.\<close>

definition conflicting :: "string list list \<Rightarrow> bool" where
  "conflicting ps = list_ex (\<lambda>p. list_ex (\<lambda>q. p \<noteq> q \<and> take (length p) q = p) ps) ps"

text \<open>
  The three update documents the methods send: \<^verbatim>\<open>{"$set": fields}\<close>,
  \<^verbatim>\<open>{"$push": {k: v}}\<close> and \<^verbatim>\<open>{"$pull": {k: v}}\<close>, the last two on a top-level field.
  \<^verbatim>\<open>$push\<close> appends to the array, creating it when the field is absent; \<^verbatim>\<open>$pull\<close>
  removes every element equal to the value and does nothing when the field is absent;
  both are write errors on a field that is not an array.
\<close>

datatype update_doc = SetOp doc | PushOp string val | PullOp string val

definition apply_update :: "update_doc \<Rightarrow> doc \<Rightarrow> exn + doc" where
  "apply_update u d = (case u of
       SetOp kvs \<Rightarrow>
         (if conflicting (map (\<lambda>kv. split_on (CHR ''.'') (fst kv)) kvs)
          then Inl (PyMongoError ''Updating the path would create a conflict'')
          else set_all kvs d)
     | PushOp k v \<Rightarrow>
         (case map_of d k of
            None \<Rightarrow> Inr (AList.update k (VArr [v]) d)
          | Some (VArr xs) \<Rightarrow> Inr (AList.update k (VArr (xs @ [v])) d)
          | Some other \<Rightarrow> Inl (PyMongoError ''The field must be an array''))
     | PullOp k v \<Rightarrow>
         (case map_of d k of
            None \<Rightarrow> Inr d
          | Some (VArr xs) \<Rightarrow> Inr (AList.update k (VArr (removeAll v xs)) d)
          | Some other \<Rightarrow> Inl (PyMongoError ''Cannot apply $pull to a non-array value'')))"

subsection \<open>Writes on the collection\<close>

text \<open>
  \<^verbatim>\<open>update_one(filter, update)\<close> changes the first document the filter selects; a write
  error leaves the collection as it was. \<^verbatim>\<open>modified_count\<close> is 1 when the document
  differs from what it was, and 0 when none was selected or nothing changed.
\<close>

fun update_first ::
  "(doc \<Rightarrow> bool) \<Rightarrow> (doc \<Rightarrow> exn + doc) \<Rightarrow> doc list \<Rightarrow> exn + nat \<times> doc list" where
  "update_first P f [] = Inr (0, [])"
| "update_first P f (d # ds) =
     (if P d then
        (case f d of
           Inl e \<Rightarrow> Inl e
         | Inr d' \<Rightarrow> Inr (if d' = d then 0 else 1, d' # ds))
      else
        (case update_first P f ds of
           Inl e \<Rightarrow> Inl e
         | Inr (n, ds') \<Rightarrow> Inr (n, d # ds')))"

definition update_one :: "world \<Rightarrow> string \<Rightarrow> val \<Rightarrow> update_doc \<Rightarrow> (exn + nat) \<times> world" where
  "update_one w k v u = (case store_down w of
       Some e \<Rightarrow> (Inl (PyMongoError e), w)
     | None \<Rightarrow>
         (case update_first (matches k v) (apply_update u) (transactions w) of
            Inl e \<Rightarrow> (Inl e, w)
          | Inr (n, ds) \<Rightarrow> (Inr n, w\<lparr>transactions := ds\<rparr>)))"

text \<open>\<^verbatim>\<open>delete_one(filter)\<close> removes the first document the filter selects.\<close>

fun delete_first :: "(doc \<Rightarrow> bool) \<Rightarrow> doc list \<Rightarrow> nat \<times> doc list" where
  "delete_first P [] = (0, [])"
| "delete_first P (d # ds) =
     (if P d then (1, ds) else (case delete_first P ds of (n, ds') \<Rightarrow> (n, d # ds')))"

definition delete_one :: "world \<Rightarrow> string \<Rightarrow> val \<Rightarrow> (exn + nat) \<times> world" where
  "delete_one w k v = (case store_down w of
       Some e \<Rightarrow> (Inl (PyMongoError e), w)
     | None \<Rightarrow>
         (case delete_first (matches k v) (transactions w) of
            (n, ds) \<Rightarrow> (Inr n, w\<lparr>transactions := ds\<rparr>)))"

text \<open>
  \<^verbatim>\<open>insert_one(document)\<close>: the driver gives a document without \<^verbatim>\<open>_id\<close> a new
  \<^verbatim>\<open>ObjectId()\<close> before it sends it, and the store refuses an \<^verbatim>\<open>_id\<close> that a document
  of the collection already has (\<^verbatim>\<open>DuplicateKeyError\<close>, a \<^verbatim>\<open>PyMongoError\<close>). The result
  is \<^verbatim>\<open>inserted_id\<close>.
\<close>

definition insert_one :: "world \<Rightarrow> doc \<Rightarrow> (exn + val) \<times> world" where
  "insert_one w d =
     (let (i, d1, w1) =
            (case map_of d ''_id'' of
               Some i \<Rightarrow> (i, d, w)
             | None \<Rightarrow>
                 (VOid (new_ObjectId (next_oid w)),
                  (''_id'', VOid (new_ObjectId (next_oid w))) # d,
                  w\<lparr>next_oid := Suc (next_oid w)\<rparr>))
      in case store_down w1 of
           Some e \<Rightarrow> (Inl (PyMongoError e), w1)
         | None \<Rightarrow>
             (if list_ex (matches ''_id'' i) (transactions w1)
              then (Inl (PyMongoError ''E11000 duplicate key error''), w1)
              else (Inr i, w1\<lparr>transactions := transactions w1 @ [d1]\<rparr>)))"

text \<open>
  \<^verbatim>\<open>except PyMongoError as e: logger.error(f"<msg>{e}"); return <sentinel>\<close>.
  Any other exception leaves the method.
\<close>

fun except_PyMongoError ::
  "string \<Rightarrow> 'a \<Rightarrow> (exn + 'a) \<times> world \<Rightarrow> (exn + 'a) \<times> world" where
  "except_PyMongoError msg sentinel (Inl (PyMongoError e), w) =
     (Inr sentinel, w\<lparr>error_log := error_log w @ [msg @ e]\<rparr>)"
| "except_PyMongoError msg sentinel (r, w) = (r, w)"

section \<open>\<^verbatim>\<open>TransactionModel\<close>\<close>

subsection \<open>\<^verbatim>\<open>get_transaction\<close>\<close>

text \<open>
  \<^verbatim>\<open>transaction["_id"] = str(transaction["_id"])\<close> and the same for \<^verbatim>\<open>"user_id"\<close>.
\<close>

definition stringify_ids :: "doc \<Rightarrow> exn + doc" where
  "stringify_ids transaction =
     (case py_item transaction ''_id'' of
        Inl e \<Rightarrow> Inl e
      | Inr i \<Rightarrow>
          (let t1 = AList.update ''_id'' (VStr (py_str i)) transaction in
           case py_item t1 ''user_id'' of
             Inl e \<Rightarrow> Inl e
           | Inr u \<Rightarrow> Inr (AList.update ''user_id'' (VStr (py_str u)) t1)))"

definition get_transaction_try :: "world \<Rightarrow> string \<Rightarrow> exn + doc option" where
  "get_transaction_try w transaction_id =
     (case ObjectId transaction_id of
        Inl e \<Rightarrow> Inl e
      | Inr oid \<Rightarrow>
          (case find_one w ''_id'' (VOid oid) of
             Inl e \<Rightarrow> Inl e
           | Inr None \<Rightarrow> Inr None
           | Inr (Some transaction) \<Rightarrow>
               (if transaction \<noteq> [] then
                  (case stringify_ids transaction of
                     Inl e \<Rightarrow> Inl e
                   | Inr t \<Rightarrow> Inr (Some t))
                else Inr (Some transaction))))"

definition get_transaction :: "world \<Rightarrow> string \<Rightarrow> (exn + doc option) \<times> world" where
  "get_transaction w transaction_id =
     except_PyMongoError ''Database error while getting transaction: '' None
       (get_transaction_try w transaction_id, w)"

subsection \<open>The timestamp helper\<close>

text \<open>
  Modelled from the spec: \<^verbatim>\<open>add_timestamps\<close> (\<^verbatim>\<open>app/utils/timestamps.py\<close>) is not
  among the sources. The spec, section 6: "given a field map and a mode flag, returns
  the map augmented with \<^verbatim>\<open>created_at\<close> (create mode) or \<^verbatim>\<open>updated_at\<close> (update mode)".
  The map handed in is the map that is augmented and returned: caller and helper hold
  the same object. The first argument is the reading of the clock.
\<close>

definition add_timestamps :: "nat \<Rightarrow> doc \<Rightarrow> bool \<Rightarrow> doc" where
  "add_timestamps now data is_update =
     (if is_update then AList.update ''updated_at'' (VTime now) data
      else AList.update ''created_at'' (VTime now) data)"

subsection \<open>\<^verbatim>\<open>create_transaction\<close>\<close>

definition create_transaction_try ::
  "world \<Rightarrow> string \<Rightarrow> string \<Rightarrow> string \<Rightarrow> string option \<Rightarrow> string option
     \<Rightarrow> (exn + string option) \<times> world" where
  "create_transaction_try w user_id name base_file_path primary_asset_class
       secondary_asset_class =
     (case ObjectId user_id of
        Inl e \<Rightarrow> (Inl e, w)
      | Inr uid \<Rightarrow>
          (let d0 = [(''user_id'', VOid uid),
                     (''name'', VStr name),
                     (''base_file_path'', VStr base_file_path),
                     (''version_number'', VInt 0),
                     (''base_file'', VNull),
                     (''preprocessed_file'', VNull),
                     (''column_rename_file'', VNull),
                     (''temp_changing_datatype_of_column'', VNull),
                     (''changed_datatype_of_column'', VNull),
                     (''are_all_steps_complete'', VBool False),
                     (''new_added_columns_datatype'', VDoc []),
                     (''temp_rbi_rules_applied'', VNull),
                     (''final_rbi_rules_applied'', VNull),
                     (''cutoff_date'', VNull)];
               d1 = (case primary_asset_class of
                       None \<Rightarrow> d0
                     | Some p \<Rightarrow> AList.update ''primary_asset_class'' (VStr p) d0);
               d2 = (case secondary_asset_class of
                       None \<Rightarrow> d1
                     | Some s \<Rightarrow> AList.update ''secondary_asset_class'' (VStr s) d1);
               transaction_data = add_timestamps (clock w) d2 False
           in case insert_one w transaction_data of
                (Inl e, w') \<Rightarrow> (Inl e, w')
              | (Inr inserted_id, w') \<Rightarrow> (Inr (Some (py_str inserted_id)), w')))"

definition create_transaction ::
  "world \<Rightarrow> string \<Rightarrow> string \<Rightarrow> string \<Rightarrow> string option \<Rightarrow> string option
     \<Rightarrow> (exn + string option) \<times> world" where
  "create_transaction w user_id name base_file_path primary_asset_class
       secondary_asset_class =
     except_PyMongoError ''Database error while creating transaction: '' None
       (create_transaction_try w user_id name base_file_path primary_asset_class
          secondary_asset_class)"

subsection \<open>The methods that update one transaction\<close>

text \<open>
  \<^verbatim>\<open>result = self.collection.update_one({"_id": ObjectId(transaction_id)}, update)\<close>
  followed by \<^verbatim>\<open>return result.modified_count > 0\<close>, the body shared by the eight
  updating methods.
\<close>

definition update_by_id :: "world \<Rightarrow> string \<Rightarrow> update_doc \<Rightarrow> (exn + bool) \<times> world" where
  "update_by_id w transaction_id u =
     (case ObjectId transaction_id of
        Inl e \<Rightarrow> (Inl e, w)
      | Inr oid \<Rightarrow>
          (case update_one w ''_id'' (VOid oid) u of
             (Inl e, w') \<Rightarrow> (Inl e, w')
           | (Inr modified_count, w') \<Rightarrow> (Inr (0 < modified_count), w')))"

definition add_new_column_datatype ::
  "world \<Rightarrow> string \<Rightarrow> string \<Rightarrow> string \<Rightarrow> (exn + bool) \<times> world" where
  "add_new_column_datatype w transaction_id column_name dtype =
     except_PyMongoError ''Database error while adding new column datatype: '' False
       (update_by_id w transaction_id
          (SetOp [(''new_added_columns_datatype.'' @ column_name, VStr dtype),
                  (''updated_at'', VTime (clock w))]))"

text \<open>
  \<^verbatim>\<open>update_transaction\<close> works on the caller's own dictionary: the two \<^verbatim>\<open>pop\<close> calls
  and \<^verbatim>\<open>add_timestamps\<close> change it before the store is called. The second component of
  the result is that dictionary as the caller finds it afterwards.
\<close>

definition update_transaction ::
  "world \<Rightarrow> string \<Rightarrow> doc \<Rightarrow> ((exn + bool) \<times> world) \<times> doc" where
  "update_transaction w transaction_id update_fields =
     (let f1 = AList.delete ''_id'' update_fields;
          f2 = AList.delete ''user_id'' f1;
          f3 = add_timestamps (clock w) f2 True
      in (except_PyMongoError ''Database error while updating transaction: '' False
            (update_by_id w transaction_id (SetOp f3)),
          f3))"

definition set_base_file :: "world \<Rightarrow> string \<Rightarrow> string \<Rightarrow> (exn + bool) \<times> world" where
  "set_base_file w transaction_id version_id =
     except_PyMongoError
       (''Database error while setting base_file for transaction '' @ transaction_id @ '': '')
       False
       (update_by_id w transaction_id
          (SetOp [(''base_file'', VStr version_id), (''updated_at'', VTime (clock w))]))"

definition set_preprocessed_file :: "world \<Rightarrow> string \<Rightarrow> string \<Rightarrow> (exn + bool) \<times> world" where
  "set_preprocessed_file w transaction_id version_id =
     except_PyMongoError
       (''Database error while setting preprocessed_file for transaction '' @ transaction_id
          @ '': '')
       False
       (update_by_id w transaction_id
          (SetOp [(''preprocessed_file'', VStr version_id), (''updated_at'', VTime (clock w))]))"

definition change_transaction_name :: "world \<Rightarrow> string \<Rightarrow> string \<Rightarrow> (exn + bool) \<times> world" where
  "change_transaction_name w transaction_id new_name =
     except_PyMongoError ''Database error while changing transaction name: '' False
       (update_by_id w transaction_id
          (SetOp (add_timestamps (clock w) [(''name'', VStr new_name)] True)))"

definition update_cutoff_date :: "world \<Rightarrow> string \<Rightarrow> string \<Rightarrow> (exn + bool) \<times> world" where
  "update_cutoff_date w transaction_id cutoff_date =
     except_PyMongoError ''Database error while updating cutoff date: '' False
       (update_by_id w transaction_id
          (SetOp [(''cutoff_date'', VStr cutoff_date), (''updated_at'', VTime (clock w))]))"

definition add_rule_application_root_version ::
  "world \<Rightarrow> string \<Rightarrow> string \<Rightarrow> (exn + bool) \<times> world" where
  "add_rule_application_root_version w transaction_id version_id =
     except_PyMongoError ''Error adding root version: '' False
       (update_by_id w transaction_id
          (PushOp ''rule_application_root_versions'' (VStr version_id)))"

definition remove_rule_application_root_version ::
  "world \<Rightarrow> string \<Rightarrow> string \<Rightarrow> (exn + bool) \<times> world" where
  "remove_rule_application_root_version w transaction_id version_id =
     except_PyMongoError ''Error removing root version: '' False
       (update_by_id w transaction_id
          (PullOp ''rule_application_root_versions'' (VStr version_id)))"

subsection \<open>\<^verbatim>\<open>delete_transaction\<close>\<close>

definition delete_transaction_try :: "world \<Rightarrow> string \<Rightarrow> (exn + bool) \<times> world" where
  "delete_transaction_try w transaction_id =
     (case ObjectId transaction_id of
        Inl e \<Rightarrow> (Inl e, w)
      | Inr oid \<Rightarrow>
          (case delete_one w ''_id'' (VOid oid) of
             (Inl e, w') \<Rightarrow> (Inl e, w')
           | (Inr deleted_count, w') \<Rightarrow> (Inr (0 < deleted_count), w')))"

definition delete_transaction :: "world \<Rightarrow> string \<Rightarrow> (exn + bool) \<times> world" where
  "delete_transaction w transaction_id =
     except_PyMongoError ''Database error while deleting transaction: '' False
       (delete_transaction_try w transaction_id)"

subsection \<open>\<^verbatim>\<open>get_transactions_by_user\<close>\<close>

text \<open>
  Modelled from the spec: \<^verbatim>\<open>TransactionVersionModel.get_version\<close>
  (\<^verbatim>\<open>app/models/transaction_version_model.py\<close>) is not among the sources. The spec,
  section 6: "given a version identifier, returns a record exposing a \<^verbatim>\<open>files_path\<close>
  string, or nothing". It is a parameter of the method.
\<close>

type_synonym version_lookup = "val \<Rightarrow> doc option"

text \<open>The body of the \<^verbatim>\<open>for\<close> loop: one transaction, rendered and enriched.\<close>

definition with_base_file_location :: "version_lookup \<Rightarrow> doc \<Rightarrow> exn + doc" where
  "with_base_file_location get_version transaction =
     (case stringify_ids transaction of
        Inl e \<Rightarrow> Inl e
      | Inr t \<Rightarrow>
          (if truthy (py_get t ''base_file'' VNull) then
             (case py_item t ''base_file'' of
                Inl e \<Rightarrow> Inl e
              | Inr b \<Rightarrow>
                  (case get_version b of
                     None \<Rightarrow> Inr t
                   | Some base_version \<Rightarrow>
                       (if base_version \<noteq> [] then
                          Inr (AList.update ''base_file_location''
                                 (py_get base_version ''files_path'' (VStr [])) t)
                        else Inr t)))
           else Inr (AList.update ''base_file_location'' (VStr []) t)))"

fun transaction_loop :: "version_lookup \<Rightarrow> doc list \<Rightarrow> doc list \<Rightarrow> exn + doc list" where
  "transaction_loop get_version [] transaction_list = Inr transaction_list"
| "transaction_loop get_version (transaction # rest) transaction_list =
     (case with_base_file_location get_version transaction of
        Inl e \<Rightarrow> Inl e
      | Inr t \<Rightarrow> transaction_loop get_version rest (transaction_list @ [t]))"

definition get_transactions_by_user_try ::
  "version_lookup \<Rightarrow> world \<Rightarrow> string \<Rightarrow> exn + doc list" where
  "get_transactions_by_user_try get_version w user_id =
     (case ObjectId user_id of
        Inl e \<Rightarrow> Inl e
      | Inr uid \<Rightarrow>
          (case find_docs w ''user_id'' (VOid uid) of
             Inl e \<Rightarrow> Inl e
           | Inr found \<Rightarrow> transaction_loop get_version found []))"

definition get_transactions_by_user ::
  "version_lookup \<Rightarrow> world \<Rightarrow> string \<Rightarrow> (exn + doc list) \<times> world" where
  "get_transactions_by_user get_version w user_id =
     except_PyMongoError
       (''Database error while fetching transactions for user '' @ user_id @ '': '') []
       (get_transactions_by_user_try get_version w user_id, w)"

section \<open>Well-formed collections and example states\<close>

text \<open>
  What the store and this class maintain: every transaction has an \<^verbatim>\<open>ObjectId\<close> under
  \<^verbatim>\<open>_id\<close> and under \<^verbatim>\<open>user_id\<close>, and no two documents share an \<^verbatim>\<open>_id\<close>.
\<close>

definition wf_transaction :: "doc \<Rightarrow> bool" where
  "wf_transaction d =
     ((case map_of d ''_id'' of Some (VOid i) \<Rightarrow> True | _ \<Rightarrow> False) \<and>
      (case map_of d ''user_id'' of Some (VOid u) \<Rightarrow> True | _ \<Rightarrow> False))"

definition wf_store :: "doc list \<Rightarrow> bool" where
  "wf_store ds = (list_all wf_transaction ds \<and> distinct (map (\<lambda>d. map_of d ''_id'') ds))"

text \<open>The two identifiers of a transaction, and its list of root versions.\<close>

definition ids :: "doc \<Rightarrow> val option \<times> val option" where
  "ids d = (map_of d ''_id'', map_of d ''user_id'')"

text \<open>
  The list under \<^verbatim>\<open>rule_application_root_versions\<close>; a transaction without the field
  has the empty list, and a field that is not an array has none.
\<close>

definition root_versions :: "doc \<Rightarrow> val list option" where
  "root_versions t = (case map_of t ''rule_application_root_versions'' of
       None \<Rightarrow> Some []
     | Some (VArr xs) \<Rightarrow> Some xs
     | Some other \<Rightarrow> None)"

text \<open>
  An empty collection at time 100, an owner, and the first identifier generated; the
  collection after \<^verbatim>\<open>create_transaction(owner_id, "loans", "/data")\<close>, the record
  \<^verbatim>\<open>get_transaction\<close> then returns, the collection after the root versions
  \<^verbatim>\<open>v1\<close>, \<^verbatim>\<open>v2\<close>, \<^verbatim>\<open>v1\<close> were added, and the first collection with the store
  down.
\<close>

definition fresh_world :: world where
  "fresh_world =
     \<lparr>transactions = [], clock = 100, next_oid = 1, store_down = None, error_log = []\<rparr>"

definition owner_id :: string where
  "owner_id = ''64b7f0c2a1d3e4f5a6b7c8d9''"

definition first_id :: string where
  "first_id = ''000000000000000000000001''"

definition created_transaction :: doc where
  "created_transaction =
     [(''_id'', VOid first_id),
      (''user_id'', VOid owner_id),
      (''name'', VStr ''loans''),
      (''base_file_path'', VStr ''/data''),
      (''version_number'', VInt 0),
      (''base_file'', VNull),
      (''preprocessed_file'', VNull),
      (''column_rename_file'', VNull),
      (''temp_changing_datatype_of_column'', VNull),
      (''changed_datatype_of_column'', VNull),
      (''are_all_steps_complete'', VBool False),
      (''new_added_columns_datatype'', VDoc []),
      (''temp_rbi_rules_applied'', VNull),
      (''final_rbi_rules_applied'', VNull),
      (''cutoff_date'', VNull),
      (''created_at'', VTime 100)]"

definition created_world :: world where
  "created_world = fresh_world\<lparr>transactions := [created_transaction], next_oid := 2\<rparr>"

definition created_record :: doc where
  "created_record =
     AList.update ''user_id'' (VStr owner_id)
       (AList.update ''_id'' (VStr first_id) created_transaction)"

definition listed_transaction :: doc where
  "listed_transaction =
     created_transaction
       @ [(''rule_application_root_versions'', VArr [VStr ''v1'', VStr ''v2'', VStr ''v1''])]"

definition listed_world :: world where
  "listed_world = created_world\<lparr>transactions := [listed_transaction]\<rparr>"

definition listed_record :: doc where
  "listed_record =
     AList.update ''user_id'' (VStr owner_id)
       (AList.update ''_id'' (VStr first_id) listed_transaction)"

definition down_world :: world where
  "down_world = created_world\<lparr>store_down := Some ''connection refused''\<rparr>"

section \<open>Properties\<close>

subsection \<open>Identifiers\<close>

lemma hex_digit_canonical:
  assumes "m < 16"
  shows "is_hex (''0123456789abcdef'' ! m) \<and>
         lower_hex (''0123456789abcdef'' ! m) = ''0123456789abcdef'' ! m"
proof -
  have "list_all (\<lambda>c. is_hex c \<and> lower_hex c = c) ''0123456789abcdef''"
    by (simp add: is_hex_def lower_hex_def)
  then show ?thesis
    using assms by (simp add: list_all_length)
qed

lemma hex_of_canonical:
  "length (hex_of k n) = k \<and> list_all is_hex (hex_of k n) \<and>
   map lower_hex (hex_of k n) = hex_of k n"
proof (induction k arbitrary: n)
  case 0
  show ?case by simp
next
  case (Suc k)
  have "n mod 16 < 16" by simp
  from hex_digit_canonical [OF this] Suc [of "n div 16"] show ?case by simp
qed

lemma ObjectId_new_ObjectId: "ObjectId (new_ObjectId n) = Inr (new_ObjectId n)"
  using hex_of_canonical [of 24 n] by (simp add: ObjectId_def new_ObjectId_def)

lemma hex_char_lower:
  assumes "is_hex c"
  shows "is_hex (lower_hex c) \<and> lower_hex (lower_hex c) = lower_hex c"
proof -
  have "list_all (\<lambda>c. is_hex (lower_hex c) \<and> lower_hex (lower_hex c) = lower_hex c)
          ''0123456789abcdefABCDEF''"
    by (simp add: is_hex_def lower_hex_def)
  then show ?thesis
    using assms unfolding is_hex_def list_all_iff by blast
qed

text \<open>\<^verbatim>\<open>ObjectId(str(ObjectId(s)))\<close> is \<^verbatim>\<open>ObjectId(s)\<close>.\<close>

lemma ObjectId_idem:
  assumes "ObjectId s = Inr oid"
  shows "ObjectId oid = Inr oid"
proof -
  from assms have len: "length s = 24" and hex: "list_all is_hex s"
    and oid: "oid = map lower_hex s"
    by (auto simp: ObjectId_def split: if_splits)
  from hex have "list_all is_hex oid \<and> map lower_hex oid = oid"
    unfolding oid by (induction s) (auto dest: hex_char_lower)
  with len oid show ?thesis by (simp add: ObjectId_def)
qed

lemma find_append_new:
  "\<not> list_ex P ds \<Longrightarrow> P d \<Longrightarrow> List.find P (ds @ [d]) = Some d"
  by (induction ds) auto

lemma matches_id_cons [simp]:
  "matches ''_id'' v ((''_id'', VOid i) # d) = (v = VOid i)"
  by (auto simp: matches_def)

subsection \<open>The example states\<close>

lemma created_world_reached:
  "create_transaction fresh_world owner_id ''loans'' ''/data'' None None
     = (Inr (Some first_id), created_world)"
  by code_simp

lemma created_record_read:
  "get_transaction created_world first_id = (Inr (Some created_record), created_world)"
  by code_simp

lemma listed_world_reached:
  "snd (add_rule_application_root_version
          (snd (add_rule_application_root_version
                  (snd (add_rule_application_root_version created_world first_id ''v1''))
                  first_id ''v2''))
          first_id ''v1'') = listed_world"
  by code_simp

lemma listed_record_read:
  "get_transaction listed_world first_id = (Inr (Some listed_record), listed_world)"
  by code_simp

lemma first_id_valid: "ObjectId first_id = Inr first_id"
  by code_simp

subsection \<open>Creation\<close>

text \<open>
  C1, as amended. For a valid owner id, with the store up and the generated identifier
  unused, \<^verbatim>\<open>create_transaction\<close> returns the new identifier and \<^verbatim>\<open>get_transaction\<close> on
  it returns a record with both identifiers as strings, the given name and path,
  \<^verbatim>\<open>version_number\<close> 0, \<^verbatim>\<open>are_all_steps_complete\<close> false, an empty
  \<^verbatim>\<open>new_added_columns_datatype\<close> map, every file field and the cutoff date null, the
  asset classes that were given, and no \<^verbatim>\<open>rule_application_root_versions\<close> field:
  the list is not part of a new record.
\<close>

theorem create_then_get_defaults:
  assumes owner: "ObjectId user_id = Inr uid"
    and up: "store_down w = None"
    and unused: "\<not> list_ex (matches ''_id'' (VOid (new_ObjectId (next_oid w)))) (transactions w)"
  shows "\<exists>w' t. create_transaction w user_id name base_file_path primary secondary
             = (Inr (Some (new_ObjectId (next_oid w))), w')
         \<and> get_transaction w' (new_ObjectId (next_oid w)) = (Inr (Some t), w')
         \<and> map_of t ''_id'' = Some (VStr (new_ObjectId (next_oid w)))
         \<and> map_of t ''user_id'' = Some (VStr uid)
         \<and> map_of t ''name'' = Some (VStr name)
         \<and> map_of t ''base_file_path'' = Some (VStr base_file_path)
         \<and> map_of t ''version_number'' = Some (VInt 0)
         \<and> map_of t ''are_all_steps_complete'' = Some (VBool False)
         \<and> map_of t ''new_added_columns_datatype'' = Some (VDoc [])
         \<and> map_of t ''base_file'' = Some VNull
         \<and> map_of t ''preprocessed_file'' = Some VNull
         \<and> map_of t ''column_rename_file'' = Some VNull
         \<and> map_of t ''temp_changing_datatype_of_column'' = Some VNull
         \<and> map_of t ''changed_datatype_of_column'' = Some VNull
         \<and> map_of t ''temp_rbi_rules_applied'' = Some VNull
         \<and> map_of t ''final_rbi_rules_applied'' = Some VNull
         \<and> map_of t ''cutoff_date'' = Some VNull
         \<and> map_of t ''primary_asset_class'' = map_option VStr primary
         \<and> map_of t ''secondary_asset_class'' = map_option VStr secondary
         \<and> map_of t ''rule_application_root_versions'' = None"
  using owner up unused ObjectId_new_ObjectId [of "next_oid w"]
  by (cases primary; cases secondary)
     (simp_all add: create_transaction_def create_transaction_try_def insert_one_def
        add_timestamps_def get_transaction_def get_transaction_try_def find_one_def
        find_append_new stringify_ids_def py_item_def)

theorem create_then_get_defaults_witness:
  "ObjectId owner_id = Inr owner_id
   \<and> store_down fresh_world = None
   \<and> \<not> list_ex (matches ''_id'' (VOid (new_ObjectId (next_oid fresh_world))))
         (transactions fresh_world)
   \<and> (\<exists>w' t. create_transaction fresh_world owner_id ''loans'' ''/data'' None None
                 = (Inr (Some (new_ObjectId (next_oid fresh_world))), w')
          \<and> get_transaction w' (new_ObjectId (next_oid fresh_world)) = (Inr (Some t), w')
          \<and> map_of t ''user_id'' = Some (VStr owner_id)
          \<and> map_of t ''version_number'' = Some (VInt 0)
          \<and> map_of t ''are_all_steps_complete'' = Some (VBool False)
          \<and> map_of t ''new_added_columns_datatype'' = Some (VDoc [])
          \<and> map_of t ''base_file'' = Some VNull
          \<and> map_of t ''rule_application_root_versions'' = None)"
proof -
  have h1: "ObjectId owner_id = Inr owner_id"
    by code_simp
  have h2: "store_down fresh_world = None"
    by (simp add: fresh_world_def)
  have h3: "\<not> list_ex (matches ''_id'' (VOid (new_ObjectId (next_oid fresh_world))))
              (transactions fresh_world)"
    by (simp add: fresh_world_def)
  from create_then_get_defaults [OF h1 h2 h3, of "''loans''" "''/data''" None None] h1 h2 h3
  show ?thesis by blast
qed

text \<open>
  C1, as stated, asks for the list of rule-application root versions to be present in
  the record. On an empty collection, the record read back after creation has no such
  field.
\<close>

theorem created_record_has_no_root_version_list:
  "(case get_transaction
           (snd (create_transaction fresh_world owner_id ''loans'' ''/data'' None None))
           first_id of
      (Inr (Some t), w) \<Rightarrow>
         map_of t ''_id'' = Some (VStr first_id)
       \<and> map_of t ''rule_application_root_versions'' = None
    | _ \<Rightarrow> False)"
  by code_simp

subsection \<open>Reading\<close>

lemma stringify_ids_Inr:
  "stringify_ids t = Inr g \<longleftrightarrow>
     (\<exists>i u. map_of t ''_id'' = Some i \<and> map_of t ''user_id'' = Some u \<and>
        g = AList.update ''user_id'' (VStr (py_str u))
              (AList.update ''_id'' (VStr (py_str i)) t))"
  by (auto simp: stringify_ids_def py_item_def update_conv' split: option.splits)

lemma stringify_ids_other:
  assumes "stringify_ids t = Inr g" and "k \<noteq> ''_id''" and "k \<noteq> ''user_id''"
  shows "map_of g k = map_of t k"
  using assms by (auto simp: stringify_ids_Inr update_conv')

lemma stringify_ids_update_other:
  assumes "stringify_ids t = Inr g" and "k \<noteq> ''_id''" and "k \<noteq> ''user_id''"
  shows "\<exists>g1. stringify_ids (AList.update k x t) = Inr g1 \<and> map_of g1 = (map_of g)(k \<mapsto> x)"
  using assms by (auto simp: stringify_ids_Inr update_conv' fun_eq_iff)

lemma matches_nonempty: "matches k v d \<Longrightarrow> d \<noteq> []"
  by (auto simp: matches_def)

lemma except_Inl_not_Some [simp]:
  "except_PyMongoError msg None (Inl a, w) \<noteq> (Inr (Some g), w')"
  by (cases a) auto

text \<open>
  When \<^verbatim>\<open>get_transaction\<close> returns a record: the store is up, the id parses, and the
  record is the first document with that \<^verbatim>\<open>_id\<close>, its two identifiers rendered.
\<close>

lemma get_transaction_Some:
  "get_transaction w tid = (Inr (Some g), w') \<longleftrightarrow>
     w' = w \<and> store_down w = None \<and>
     (\<exists>oid t. ObjectId tid = Inr oid \<and>
        List.find (matches ''_id'' (VOid oid)) (transactions w) = Some t \<and>
        stringify_ids t = Inr g)"
proof (cases "ObjectId tid")
  case (Inl e)
  then show ?thesis
    by (cases e) (auto simp: get_transaction_def get_transaction_try_def)
next
  case (Inr oid)
  show ?thesis
  proof (cases "store_down w")
    case (Some e)
    with Inr show ?thesis
      by (auto simp: get_transaction_def get_transaction_try_def find_one_def)
  next
    case None
    show ?thesis
    proof (cases "List.find (matches ''_id'' (VOid oid)) (transactions w)")
      case N: None
      with Inr None show ?thesis
        by (auto simp: get_transaction_def get_transaction_try_def find_one_def)
    next
      case (Some t)
      then have "t \<noteq> []"
        by (auto simp: find_Some_iff dest: matches_nonempty)
      with Inr None Some show ?thesis
        by (cases "stringify_ids t")
           (auto simp: get_transaction_def get_transaction_try_def find_one_def
              stringify_ids_def py_item_def split: option.splits)
    qed
  qed
qed

text \<open>
  C4. The claim: \<^verbatim>\<open>get(id)\<close> returns \<^verbatim>\<open>None\<close> on any store error and on an id that
  does not parse. The first half holds. For the second, \<^verbatim>\<open>ObjectId("bad")\<close> raises
  \<^verbatim>\<open>InvalidId\<close>, which \<^verbatim>\<open>except PyMongoError\<close> does not catch: the call returns
  nothing, logs nothing, and the exception reaches the caller.
\<close>

theorem get_transaction_invalid_id_raises:
  "get_transaction w ''bad'' = (Inl (InvalidId ''bad''), w)"
  by (simp add: get_transaction_def get_transaction_try_def ObjectId_def)

subsection \<open>Store failures\<close>

lemma update_by_id_store_down:
  assumes "store_down w = Some e" and "ObjectId i = Inr oid"
  shows "update_by_id w i u = (Inl (PyMongoError e), w)"
  using assms by (simp add: update_by_id_def update_one_def)

lemma except_no_store_error:
  "fst (except_PyMongoError msg s p) \<noteq> Inl (PyMongoError x)"
  by (cases "(msg, s, p)" rule: except_PyMongoError.cases) auto

text \<open>A \<^verbatim>\<open>PyMongoError\<close> never leaves a method, whatever raised it.\<close>

lemma no_store_error_propagates:
  "fst (get_transaction w i) \<noteq> Inl (PyMongoError x)
   \<and> fst (create_transaction w i name base_file_path primary secondary) \<noteq> Inl (PyMongoError x)
   \<and> fst (add_new_column_datatype w i column_name dtype) \<noteq> Inl (PyMongoError x)
   \<and> fst (fst (update_transaction w i update_fields)) \<noteq> Inl (PyMongoError x)
   \<and> fst (delete_transaction w i) \<noteq> Inl (PyMongoError x)
   \<and> fst (get_transactions_by_user get_version w i) \<noteq> Inl (PyMongoError x)
   \<and> fst (set_base_file w i version_id) \<noteq> Inl (PyMongoError x)
   \<and> fst (set_preprocessed_file w i version_id) \<noteq> Inl (PyMongoError x)
   \<and> fst (change_transaction_name w i new_name) \<noteq> Inl (PyMongoError x)
   \<and> fst (update_cutoff_date w i cutoff_date) \<noteq> Inl (PyMongoError x)
   \<and> fst (add_rule_application_root_version w i version_id) \<noteq> Inl (PyMongoError x)
   \<and> fst (remove_rule_application_root_version w i version_id) \<noteq> Inl (PyMongoError x)"
  by (simp add: except_no_store_error get_transaction_def create_transaction_def
        add_new_column_datatype_def update_transaction_def Let_def delete_transaction_def
        get_transactions_by_user_def set_base_file_def set_preprocessed_file_def
        change_transaction_name_def update_cutoff_date_def
        add_rule_application_root_version_def remove_rule_application_root_version_def)

text \<open>
  C5. While the store is down, so that the one store call of a method raises
  \<^verbatim>\<open>PyMongoError(e)\<close>, every method called with an id that parses returns its
  sentinel (\<^verbatim>\<open>None\<close> for get and create, \<^verbatim>\<open>[]\<close> for the listing, \<^verbatim>\<open>False\<close> for the
  others) and the only other effect is one line in the error log, the method's message
  followed by the text of the error (create has also used up one generated identifier).
  No exception reaches the caller; and in any state, with any arguments, no method lets
  a \<^verbatim>\<open>PyMongoError\<close> through.
\<close>

theorem store_failure_yields_sentinel:
  assumes down: "store_down w = Some e" and valid: "ObjectId i = Inr oid"
  shows "get_transaction w i =
           (Inr None,
            w\<lparr>error_log := error_log w @ [''Database error while getting transaction: '' @ e]\<rparr>)
       \<and> create_transaction w i name base_file_path primary secondary =
           (Inr None,
            w\<lparr>next_oid := Suc (next_oid w),
              error_log := error_log w @ [''Database error while creating transaction: '' @ e]\<rparr>)
       \<and> add_new_column_datatype w i column_name dtype =
           (Inr False,
            w\<lparr>error_log := error_log w
                 @ [''Database error while adding new column datatype: '' @ e]\<rparr>)
       \<and> fst (update_transaction w i update_fields) =
           (Inr False,
            w\<lparr>error_log := error_log w @ [''Database error while updating transaction: '' @ e]\<rparr>)
       \<and> delete_transaction w i =
           (Inr False,
            w\<lparr>error_log := error_log w @ [''Database error while deleting transaction: '' @ e]\<rparr>)
       \<and> get_transactions_by_user get_version w i =
           (Inr [],
            w\<lparr>error_log := error_log w
                 @ [''Database error while fetching transactions for user '' @ i @ '': '' @ e]\<rparr>)
       \<and> set_base_file w i version_id =
           (Inr False,
            w\<lparr>error_log := error_log w
                 @ [''Database error while setting base_file for transaction '' @ i @ '': '' @ e]\<rparr>)
       \<and> set_preprocessed_file w i version_id =
           (Inr False,
            w\<lparr>error_log := error_log w
                 @ [''Database error while setting preprocessed_file for transaction '' @ i
                      @ '': '' @ e]\<rparr>)
       \<and> change_transaction_name w i new_name =
           (Inr False,
            w\<lparr>error_log := error_log w
                 @ [''Database error while changing transaction name: '' @ e]\<rparr>)
       \<and> update_cutoff_date w i cutoff_date =
           (Inr False,
            w\<lparr>error_log := error_log w @ [''Database error while updating cutoff date: '' @ e]\<rparr>)
       \<and> add_rule_application_root_version w i version_id =
           (Inr False, w\<lparr>error_log := error_log w @ [''Error adding root version: '' @ e]\<rparr>)
       \<and> remove_rule_application_root_version w i version_id =
           (Inr False, w\<lparr>error_log := error_log w @ [''Error removing root version: '' @ e]\<rparr>)
       \<and> (\<forall>w' j x.
             fst (get_transaction w' j) \<noteq> Inl (PyMongoError x)
           \<and> fst (create_transaction w' j name base_file_path primary secondary)
               \<noteq> Inl (PyMongoError x)
           \<and> fst (add_new_column_datatype w' j column_name dtype) \<noteq> Inl (PyMongoError x)
           \<and> fst (fst (update_transaction w' j update_fields)) \<noteq> Inl (PyMongoError x)
           \<and> fst (delete_transaction w' j) \<noteq> Inl (PyMongoError x)
           \<and> fst (get_transactions_by_user get_version w' j) \<noteq> Inl (PyMongoError x)
           \<and> fst (set_base_file w' j version_id) \<noteq> Inl (PyMongoError x)
           \<and> fst (set_preprocessed_file w' j version_id) \<noteq> Inl (PyMongoError x)
           \<and> fst (change_transaction_name w' j new_name) \<noteq> Inl (PyMongoError x)
           \<and> fst (update_cutoff_date w' j cutoff_date) \<noteq> Inl (PyMongoError x)
           \<and> fst (add_rule_application_root_version w' j version_id) \<noteq> Inl (PyMongoError x)
           \<and> fst (remove_rule_application_root_version w' j version_id)
               \<noteq> Inl (PyMongoError x))"
proof -
  note u = update_by_id_store_down [OF down valid]
  have 1: "get_transaction w i =
           (Inr None,
            w\<lparr>error_log := error_log w @ [''Database error while getting transaction: '' @ e]\<rparr>)"
    using down valid by (simp add: get_transaction_def get_transaction_try_def find_one_def)
  have 2: "create_transaction w i name base_file_path primary secondary =
           (Inr None,
            w\<lparr>next_oid := Suc (next_oid w),
              error_log := error_log w @ [''Database error while creating transaction: '' @ e]\<rparr>)"
    using down valid
    by (cases primary; cases secondary)
       (simp_all add: create_transaction_def create_transaction_try_def insert_one_def
          add_timestamps_def)
  have 3: "delete_transaction w i =
           (Inr False,
            w\<lparr>error_log := error_log w @ [''Database error while deleting transaction: '' @ e]\<rparr>)"
    using down valid
    by (simp add: delete_transaction_def delete_transaction_try_def delete_one_def)
  have 4: "get_transactions_by_user get_version w i =
           (Inr [],
            w\<lparr>error_log := error_log w
                 @ [''Database error while fetching transactions for user '' @ i @ '': '' @ e]\<rparr>)"
    using down valid
    by (simp add: get_transactions_by_user_def get_transactions_by_user_try_def find_docs_def)
  have 5: "add_new_column_datatype w i column_name dtype =
           (Inr False,
            w\<lparr>error_log := error_log w
                 @ [''Database error while adding new column datatype: '' @ e]\<rparr>)
       \<and> fst (update_transaction w i update_fields) =
           (Inr False,
            w\<lparr>error_log := error_log w @ [''Database error while updating transaction: '' @ e]\<rparr>)
       \<and> set_base_file w i version_id =
           (Inr False,
            w\<lparr>error_log := error_log w
                 @ [''Database error while setting base_file for transaction '' @ i @ '': '' @ e]\<rparr>)
       \<and> set_preprocessed_file w i version_id =
           (Inr False,
            w\<lparr>error_log := error_log w
                 @ [''Database error while setting preprocessed_file for transaction '' @ i
                      @ '': '' @ e]\<rparr>)
       \<and> change_transaction_name w i new_name =
           (Inr False,
            w\<lparr>error_log := error_log w
                 @ [''Database error while changing transaction name: '' @ e]\<rparr>)
       \<and> update_cutoff_date w i cutoff_date =
           (Inr False,
            w\<lparr>error_log := error_log w @ [''Database error while updating cutoff date: '' @ e]\<rparr>)
       \<and> add_rule_application_root_version w i version_id =
           (Inr False, w\<lparr>error_log := error_log w @ [''Error adding root version: '' @ e]\<rparr>)
       \<and> remove_rule_application_root_version w i version_id =
           (Inr False, w\<lparr>error_log := error_log w @ [''Error removing root version: '' @ e]\<rparr>)"
    by (simp add: u add_new_column_datatype_def update_transaction_def set_base_file_def
          set_preprocessed_file_def change_transaction_name_def update_cutoff_date_def
          add_rule_application_root_version_def remove_rule_application_root_version_def)
  have 6: "\<forall>w' j x.
             fst (get_transaction w' j) \<noteq> Inl (PyMongoError x)
           \<and> fst (create_transaction w' j name base_file_path primary secondary)
               \<noteq> Inl (PyMongoError x)
           \<and> fst (add_new_column_datatype w' j column_name dtype) \<noteq> Inl (PyMongoError x)
           \<and> fst (fst (update_transaction w' j update_fields)) \<noteq> Inl (PyMongoError x)
           \<and> fst (delete_transaction w' j) \<noteq> Inl (PyMongoError x)
           \<and> fst (get_transactions_by_user get_version w' j) \<noteq> Inl (PyMongoError x)
           \<and> fst (set_base_file w' j version_id) \<noteq> Inl (PyMongoError x)
           \<and> fst (set_preprocessed_file w' j version_id) \<noteq> Inl (PyMongoError x)
           \<and> fst (change_transaction_name w' j new_name) \<noteq> Inl (PyMongoError x)
           \<and> fst (update_cutoff_date w' j cutoff_date) \<noteq> Inl (PyMongoError x)
           \<and> fst (add_rule_application_root_version w' j version_id) \<noteq> Inl (PyMongoError x)
           \<and> fst (remove_rule_application_root_version w' j version_id)
               \<noteq> Inl (PyMongoError x)"
    by (intro allI) (rule no_store_error_propagates)
  from 1 2 3 4 5 6 show ?thesis
    by (intro conjI) (elim conjE, assumption)+
qed

theorem store_failure_yields_sentinel_witness:
  "store_down down_world = Some ''connection refused''
   \<and> ObjectId first_id = Inr first_id
   \<and> get_transaction down_world first_id =
        (Inr None,
         down_world\<lparr>error_log := error_log down_world
            @ [''Database error while getting transaction: '' @ ''connection refused'']\<rparr>)
   \<and> delete_transaction down_world first_id =
        (Inr False,
         down_world\<lparr>error_log := error_log down_world
            @ [''Database error while deleting transaction: '' @ ''connection refused'']\<rparr>)
   \<and> transactions down_world = [created_transaction]"
proof -
  have h1: "store_down down_world = Some ''connection refused''"
    by (simp add: down_world_def)
  have h2: "transactions down_world = [created_transaction]"
    by (simp add: down_world_def created_world_def)
  note t = store_failure_yields_sentinel [OF h1 first_id_valid]
  have g: "get_transaction down_world first_id =
        (Inr None,
         down_world\<lparr>error_log := error_log down_world
            @ [''Database error while getting transaction: '' @ ''connection refused'']\<rparr>)"
    by (rule t [THEN conjunct1])
  have d: "delete_transaction down_world first_id =
        (Inr False,
         down_world\<lparr>error_log := error_log down_world
            @ [''Database error while deleting transaction: '' @ ''connection refused'']\<rparr>)"
    by (rule t [THEN conjunct2, THEN conjunct2, THEN conjunct2, THEN conjunct2,
                THEN conjunct1])
  from h1 first_id_valid g d h2 show ?thesis by (intro conjI)
qed

subsection \<open>The generic update\<close>

lemma split_on_nonempty: "split_on c s \<noteq> []"
  by (induction s) (auto split: list.splits)

lemma split_on_single: "split_on c s = [u] \<Longrightarrow> s = u"
proof (induction s arbitrary: u)
  case Nil
  then show ?case by simp
next
  case (Cons x xs)
  then show ?case
    by (auto simp: split_on_nonempty split: if_splits list.splits)
qed

lemma set_in_scalar:
  "ks \<noteq> [] \<Longrightarrow> \<exists>e. set_in ks v (Some (VOid u)) = Inl e"
  by (cases ks) auto

text \<open>
  One path of a \<^verbatim>\<open>$set\<close>, other than the keys \<^verbatim>\<open>_id\<close> and \<^verbatim>\<open>user_id\<close> themselves,
  leaves both identifiers as they are: a path below \<^verbatim>\<open>_id\<close> is refused, and a path
  below \<^verbatim>\<open>user_id\<close> cannot descend into an \<^verbatim>\<open>ObjectId\<close>.
\<close>

lemma set_path_ids:
  assumes ok: "set_path k v d = Inr d'"
    and k: "k \<noteq> ''_id''" "k \<noteq> ''user_id''"
    and owner: "map_of d ''user_id'' = Some (VOid u)"
  shows "map_of d' ''_id'' = map_of d ''_id'' \<and> map_of d' ''user_id'' = Some (VOid u)"
proof -
  let ?p = "split_on (CHR ''.'') k"
  obtain h ks where p: "?p = h # ks"
    using split_on_nonempty [of "CHR ''.''" k] by (cases ?p) auto
  show ?thesis
  proof (cases "h = ''_id''")
    case True
    with ok p owner show ?thesis
      by (auto simp: set_path_def Let_def split: if_splits)
  next
    case False
    note not_id = this
    show ?thesis
    proof (cases "h = ''user_id''")
      case True
      with p k have "ks \<noteq> []"
        using split_on_single [of "CHR ''.''" k "''user_id''"] by auto
      from set_in_scalar [OF this, of v u] obtain e where "set_in ks v (Some (VOid u)) = Inl e"
        by blast
      with ok p True owner show ?thesis
        by (auto simp: set_path_def Let_def split: if_splits)
    next
      case False
      with ok p not_id owner show ?thesis
        by (auto simp: set_path_def Let_def update_conv' split: if_splits sum.splits)
    qed
  qed
qed

lemma set_all_ids:
  assumes "set_all kvs d = Inr d'"
    and "\<forall>kv\<in>set kvs. fst kv \<noteq> ''_id'' \<and> fst kv \<noteq> ''user_id''"
    and "map_of d ''user_id'' = Some (VOid u)"
  shows "map_of d' ''_id'' = map_of d ''_id'' \<and> map_of d' ''user_id'' = Some (VOid u)"
  using assms
proof (induction kvs arbitrary: d)
  case Nil
  then show ?case by simp
next
  case (Cons kv kvs)
  obtain k v where kv: "kv = (k, v)" by (cases kv)
  with Cons.prems obtain d1 where 1: "set_path k v d = Inr d1" and 2: "set_all kvs d1 = Inr d'"
    by (auto split: sum.splits)
  from Cons.prems kv have "k \<noteq> ''_id''" "k \<noteq> ''user_id''" by auto
  from set_path_ids [OF 1 this Cons.prems(3)]
  have d1: "map_of d1 ''_id'' = map_of d ''_id''" "map_of d1 ''user_id'' = Some (VOid u)"
    by auto
  from Cons.IH [OF 2 _ d1(2)] Cons.prems(2) d1 show ?case by auto
qed

lemma apply_set_ids:
  assumes "apply_update (SetOp kvs) d = Inr d'"
    and "\<forall>kv\<in>set kvs. fst kv \<noteq> ''_id'' \<and> fst kv \<noteq> ''user_id''"
    and "wf_transaction d"
  shows "ids d' = ids d"
proof -
  from assms(3) obtain u where "map_of d ''user_id'' = Some (VOid u)"
    by (auto simp: wf_transaction_def split: option.splits val.splits)
  moreover from assms(1) have "set_all kvs d = Inr d'"
    by (auto simp: apply_update_def split: if_splits)
  ultimately show ?thesis
    using set_all_ids [OF _ assms(2)] by (simp add: ids_def)
qed

lemma update_first_ids:
  assumes "update_first P f ds = Inr (n, ds')"
    and "\<And>d d'. d \<in> set ds \<Longrightarrow> f d = Inr d' \<Longrightarrow> ids d' = ids d"
  shows "map ids ds' = map ids ds"
  using assms
proof (induction ds arbitrary: n ds')
  case Nil
  then show ?case by simp
next
  case (Cons d ds)
  show ?case
  proof (cases "P d")
    case True
    with Cons.prems show ?thesis
      by (auto split: sum.splits)
  next
    case False
    with Cons.prems(1) obtain ds1 where "update_first P f ds = Inr (n, ds1)" and "ds' = d # ds1"
      by (auto split: sum.splits)
    with Cons.IH [of n ds1] Cons.prems(2) show ?thesis by auto
  qed
qed

lemma except_transactions:
  "transactions (snd (except_PyMongoError msg s (r, w))) = transactions w"
  by (cases "(msg, s, (r, w))" rule: except_PyMongoError.cases) auto

lemma update_by_id_set_ids:
  assumes wf: "list_all wf_transaction (transactions w)"
    and keys: "\<forall>kv\<in>set kvs. fst kv \<noteq> ''_id'' \<and> fst kv \<noteq> ''user_id''"
  shows "map ids (transactions (snd (update_by_id w tid (SetOp kvs)))) = map ids (transactions w)"
proof (cases "ObjectId tid")
  case (Inl e)
  then show ?thesis by (simp add: update_by_id_def)
next
  case (Inr oid)
  show ?thesis
  proof (cases "store_down w")
    case (Some e)
    with Inr show ?thesis by (simp add: update_by_id_def update_one_def)
  next
    case None
    show ?thesis
    proof (cases "update_first (matches ''_id'' (VOid oid)) (apply_update (SetOp kvs))
                    (transactions w)")
      case (Inl e)
      with Inr None show ?thesis by (simp add: update_by_id_def update_one_def)
    next
      case R: (Inr r)
      obtain n ds' where r: "r = (n, ds')" by (cases r)
      have "map ids ds' = map ids (transactions w)"
      proof (rule update_first_ids)
        show "update_first (matches ''_id'' (VOid oid)) (apply_update (SetOp kvs))
                (transactions w) = Inr (n, ds')"
          using R r by simp
      next
        fix d d'
        assume "d \<in> set (transactions w)" and "apply_update (SetOp kvs) d = Inr d'"
        with wf keys show "ids d' = ids d"
          by (auto simp: list_all_iff intro: apply_set_ids)
      qed
      with Inr None R r show ?thesis by (simp add: update_by_id_def update_one_def)
    qed
  qed
qed

lemma stripped_keys:
  assumes "kv \<in> set (add_timestamps now (AList.delete ''user_id'' (AList.delete ''_id'' fs)) True)"
  shows "fst kv \<noteq> ''_id'' \<and> fst kv \<noteq> ''user_id''"
proof -
  let ?f2 = "AList.delete ''user_id'' (AList.delete ''_id'' fs)"
  from assms have "fst kv \<in> fst ` set (AList.update ''updated_at'' (VTime now) ?f2)"
    by (simp add: add_timestamps_def)
  then have "fst kv = ''updated_at'' \<or> fst kv \<in> fst ` set ?f2"
    by (simp add: dom_update)
  moreover have "''_id'' \<notin> fst ` set ?f2"
    using delete_notin_dom [of "''_id''" fs]
      dom_delete_subset [of "''user_id''" "AList.delete ''_id'' fs"]
    by blast
  moreover have "''user_id'' \<notin> fst ` set ?f2"
    by (rule delete_notin_dom)
  ultimately show ?thesis by force
qed

text \<open>
  C2. On a collection of well-formed transactions, \<^verbatim>\<open>update_transaction\<close> with any id
  and any field map leaves the \<^verbatim>\<open>_id\<close> and the \<^verbatim>\<open>user_id\<close> of every stored
  transaction as they were, also when the map has the keys \<^verbatim>\<open>_id\<close> or \<^verbatim>\<open>user_id\<close>;
  and the call with those keys does exactly what the call without them does: they are
  dropped, not refused.
\<close>

theorem update_never_changes_ids:
  assumes wf: "list_all wf_transaction (transactions w)"
  shows "map ids (transactions (snd (fst (update_transaction w tid update_fields))))
           = map ids (transactions w)
       \<and> update_transaction w tid update_fields
           = update_transaction w tid
               (AList.delete ''_id'' (AList.delete ''user_id'' update_fields))"
proof -
  let ?f3 = "add_timestamps (clock w)
               (AList.delete ''user_id'' (AList.delete ''_id'' update_fields)) True"
  have keys: "\<forall>kv\<in>set ?f3. fst kv \<noteq> ''_id'' \<and> fst kv \<noteq> ''user_id''"
    using stripped_keys by blast
  obtain r w' where u: "update_by_id w tid (SetOp ?f3) = (r, w')"
    by (cases "update_by_id w tid (SetOp ?f3)")
  from update_by_id_set_ids [OF wf keys, of tid] u
  have "map ids (transactions w') = map ids (transactions w)" by simp
  with u have 1: "map ids (transactions (snd (fst (update_transaction w tid update_fields))))
           = map ids (transactions w)"
    by (simp add: update_transaction_def Let_def except_transactions)
  have "AList.delete ''user_id'' (AList.delete ''_id''
          (AList.delete ''_id'' (AList.delete ''user_id'' update_fields)))
        = AList.delete ''user_id'' (AList.delete ''_id'' update_fields)"
    by (simp add: delete_twist [of "''_id''" "''user_id''"] delete_idem)
  then have 2: "update_transaction w tid update_fields
           = update_transaction w tid
               (AList.delete ''_id'' (AList.delete ''user_id'' update_fields))"
    by (simp add: update_transaction_def)
  from 1 2 show ?thesis by simp
qed

theorem update_never_changes_ids_witness:
  "list_all wf_transaction (transactions created_world)
   \<and> fst (fst (update_transaction created_world first_id
                  [(''_id'', VStr ''x''), (''user_id'', VStr ''y''), (''name'', VStr ''bonds'')]))
       = Inr True
   \<and> map ids (transactions (snd (fst (update_transaction created_world first_id
                  [(''_id'', VStr ''x''), (''user_id'', VStr ''y''), (''name'', VStr ''bonds'')]))))
       = map ids (transactions created_world)
   \<and> map ids (transactions created_world) = [(Some (VOid first_id), Some (VOid owner_id))]"
proof -
  have h: "list_all wf_transaction (transactions created_world)"
    by code_simp
  have r: "fst (fst (update_transaction created_world first_id
                  [(''_id'', VStr ''x''), (''user_id'', VStr ''y''), (''name'', VStr ''bonds'')]))
       = Inr True"
    by code_simp
  have i: "map ids (transactions created_world) = [(Some (VOid first_id), Some (VOid owner_id))]"
    by code_simp
  from update_never_changes_ids [OF h] have
    "map ids (transactions (snd (fst (update_transaction created_world first_id
                  [(''_id'', VStr ''x''), (''user_id'', VStr ''y''), (''name'', VStr ''bonds'')]))))
       = map ids (transactions created_world)"
    by (rule conjunct1)
  with h r i show ?thesis by (intro conjI)
qed

text \<open>
  C10. \<^verbatim>\<open>update_transaction\<close> changes the dictionary it was given: whatever the call
  returns, the caller's dictionary afterwards is the one passed in without the keys
  \<^verbatim>\<open>_id\<close> and \<^verbatim>\<open>user_id\<close> and with \<^verbatim>\<open>updated_at\<close> set to the time of the call; every
  other key is as it was.
\<close>

theorem update_changes_callers_map:
  "snd (update_transaction w tid update_fields)
     = AList.update ''updated_at'' (VTime (clock w))
         (AList.delete ''user_id'' (AList.delete ''_id'' update_fields))
   \<and> map_of (snd (update_transaction w tid update_fields)) ''_id'' = None
   \<and> map_of (snd (update_transaction w tid update_fields)) ''user_id'' = None
   \<and> map_of (snd (update_transaction w tid update_fields)) ''updated_at''
       = Some (VTime (clock w))
   \<and> (\<forall>k. k \<noteq> ''_id'' \<and> k \<noteq> ''user_id'' \<and> k \<noteq> ''updated_at'' \<longrightarrow>
         map_of (snd (update_transaction w tid update_fields)) k = map_of update_fields k)"
  by (simp add: update_transaction_def Let_def add_timestamps_def update_conv' delete_conv')

theorem update_changes_callers_map_witness:
  "''name'' \<noteq> ''_id'' \<and> ''name'' \<noteq> ''user_id'' \<and> ''name'' \<noteq> ''updated_at''
   \<and> map_of (snd (update_transaction created_world first_id
                [(''_id'', VStr ''x''), (''user_id'', VStr ''y''), (''name'', VStr ''bonds'')]))
         ''name''
       = map_of [(''_id'', VStr ''x''), (''user_id'', VStr ''y''), (''name'', VStr ''bonds'')]
           ''name''
   \<and> map_of (snd (update_transaction created_world first_id
                [(''_id'', VStr ''x''), (''user_id'', VStr ''y''), (''name'', VStr ''bonds'')]))
         ''_id'' = None
   \<and> map_of [(''_id'', VStr ''x''), (''user_id'', VStr ''y''), (''name'', VStr ''bonds'')] ''_id''
       = Some (VStr ''x'')"
proof -
  let ?fs = "[(''_id'', VStr ''x''), (''user_id'', VStr ''y''), (''name'', VStr ''bonds'')]"
  let ?after = "snd (update_transaction created_world first_id ?fs)"
  note t = update_changes_callers_map [of created_world first_id ?fs]
  have h: "''name'' \<noteq> ''_id'' \<and> ''name'' \<noteq> ''user_id'' \<and> ''name'' \<noteq> ''updated_at''"
    by simp
  from t have "\<forall>k. k \<noteq> ''_id'' \<and> k \<noteq> ''user_id'' \<and> k \<noteq> ''updated_at'' \<longrightarrow>
                 map_of ?after k = map_of ?fs k"
    by (elim conjE)
  with h have 1: "map_of ?after ''name'' = map_of ?fs ''name''"
    by (elim allE [of _ "''name''"] impE)
  from t have 2: "map_of ?after ''_id'' = None"
    by (elim conjE)
  have 3: "map_of ?fs ''_id'' = Some (VStr ''x'')"
    by simp
  from h 1 2 3 show ?thesis by (intro conjI) (elim conjE, assumption)+
qed

subsection \<open>Root versions\<close>

lemma update_first_found:
  assumes "List.find P ds = Some t" and "f t = Inr t'" and "P t'"
  shows "\<exists>ds'. update_first P f ds = Inr (if t' = t then 0 else 1, ds') \<and>
           List.find P ds' = Some t' \<and> length ds' = length ds"
  using assms
proof (induction ds)
  case Nil
  then show ?case by simp
next
  case (Cons d ds)
  then show ?case by (cases "P d") auto
qed

lemma update_eq_self: "AList.update k x d = d \<longleftrightarrow> map_of d k = Some x"
proof
  assume "AList.update k x d = d"
  then have "map_of (AList.update k x d) k = map_of d k" by simp
  then show "map_of d k = Some x" by (simp add: update_conv')
next
  assume "map_of d k = Some x"
  then show "AList.update k x d = d" by (rule update_triv)
qed

text \<open>
  An update that succeeds on the transaction with the given id and keeps its \<^verbatim>\<open>_id\<close>:
  the method reports whether the document changed, and the changed document is the
  one then found under the id.
\<close>

lemma update_by_id_found:
  assumes up: "store_down w = None" and oid: "ObjectId tid = Inr oid"
    and found: "List.find (matches ''_id'' (VOid oid)) (transactions w) = Some t"
    and app: "apply_update u t = Inr t'"
    and same_id: "map_of t' ''_id'' = map_of t ''_id''"
  shows "\<exists>w1. update_by_id w tid u = (Inr (t' \<noteq> t), w1) \<and> store_down w1 = None \<and>
           List.find (matches ''_id'' (VOid oid)) (transactions w1) = Some t'"
proof -
  from found have "matches ''_id'' (VOid oid) t"
    by (auto simp: find_Some_iff)
  with same_id have "matches ''_id'' (VOid oid) t'"
    by (simp add: matches_def)
  from update_first_found [where f = "apply_update u", OF found app this]
  obtain ds' where "update_first (matches ''_id'' (VOid oid)) (apply_update u) (transactions w)
      = Inr (if t' = t then 0 else 1, ds')"
    and "List.find (matches ''_id'' (VOid oid)) ds' = Some t'"
    by blast
  with up oid show ?thesis
    by (auto simp: update_by_id_def update_one_def)
qed

lemma add_root_version_once:
  assumes got: "get_transaction w tid = (Inr (Some g), w)"
    and roots: "root_versions g = Some xs"
  shows "\<exists>w1 g1. add_rule_application_root_version w tid v = (Inr True, w1)
          \<and> get_transaction w1 tid = (Inr (Some g1), w1)
          \<and> root_versions g1 = Some (xs @ [VStr v])
          \<and> (\<forall>k. k \<noteq> ''rule_application_root_versions'' \<longrightarrow> map_of g1 k = map_of g k)"
proof -
  let ?k = "''rule_application_root_versions''"
  from got obtain oid t where up: "store_down w = None" and oid: "ObjectId tid = Inr oid"
    and found: "List.find (matches ''_id'' (VOid oid)) (transactions w) = Some t"
    and str: "stringify_ids t = Inr g"
    by (auto simp: get_transaction_Some)
  from str have gk: "map_of g ?k = map_of t ?k"
    by (rule stringify_ids_other) simp_all
  let ?t' = "AList.update ?k (VArr (xs @ [VStr v])) t"
  from roots gk have app: "apply_update (PushOp ?k (VStr v)) t = Inr ?t'"
    by (auto simp: apply_update_def root_versions_def split: option.splits val.splits)
  have same: "map_of ?t' ''_id'' = map_of t ''_id''"
    by (simp add: update_conv')
  from roots gk have neq: "?t' \<noteq> t"
    by (auto simp: update_eq_self root_versions_def split: option.splits val.splits)
  from update_by_id_found [OF up oid found app same] neq
  obtain w1 where upd: "update_by_id w tid (PushOp ?k (VStr v)) = (Inr True, w1)"
    and up1: "store_down w1 = None"
    and found1: "List.find (matches ''_id'' (VOid oid)) (transactions w1) = Some ?t'"
    by auto
  from stringify_ids_update_other [OF str, of ?k "VArr (xs @ [VStr v])"]
  obtain g1 where str1: "stringify_ids ?t' = Inr g1"
    and g1: "map_of g1 = (map_of g)(?k \<mapsto> VArr (xs @ [VStr v]))"
    by auto
  from g1 have "root_versions g1 = Some (xs @ [VStr v])"
    by (simp add: root_versions_def)
  moreover from g1 have "\<forall>k. k \<noteq> ?k \<longrightarrow> map_of g1 k = map_of g k"
    by simp
  moreover from up1 oid found1 str1 have "get_transaction w1 tid = (Inr (Some g1), w1)"
    by (auto simp: get_transaction_Some)
  moreover from upd have "add_rule_application_root_version w tid v = (Inr True, w1)"
    by (simp add: add_rule_application_root_version_def)
  ultimately show ?thesis by blast
qed

text \<open>
  C8. For a transaction that \<^verbatim>\<open>get_transaction\<close> returns, with root-version list
  \<open>xs\<close> (empty when the field is absent, as on a new transaction),
  \<^verbatim>\<open>add_rule_application_root_version\<close> succeeds and the list read back is \<open>xs\<close>
  followed by the version id; a second call with the same id succeeds again and
  the list read back ends in the id twice. No other field of the record changes.
\<close>

theorem add_root_version_appends:
  assumes got: "get_transaction w tid = (Inr (Some g), w)"
    and roots: "root_versions g = Some xs"
  shows "\<exists>w1 g1 w2 g2.
            add_rule_application_root_version w tid v = (Inr True, w1)
          \<and> get_transaction w1 tid = (Inr (Some g1), w1)
          \<and> root_versions g1 = Some (xs @ [VStr v])
          \<and> add_rule_application_root_version w1 tid v = (Inr True, w2)
          \<and> get_transaction w2 tid = (Inr (Some g2), w2)
          \<and> root_versions g2 = Some (xs @ [VStr v, VStr v])
          \<and> (\<forall>k. k \<noteq> ''rule_application_root_versions'' \<longrightarrow>
                 map_of g1 k = map_of g k \<and> map_of g2 k = map_of g k)"
proof -
  from add_root_version_once [OF got roots]
  obtain w1 g1 where 1: "add_rule_application_root_version w tid v = (Inr True, w1)"
    and g1: "get_transaction w1 tid = (Inr (Some g1), w1)"
    and r1: "root_versions g1 = Some (xs @ [VStr v])"
    and k1: "\<forall>k. k \<noteq> ''rule_application_root_versions'' \<longrightarrow> map_of g1 k = map_of g k"
    by blast
  from add_root_version_once [OF g1 r1]
  obtain w2 g2 where 2: "add_rule_application_root_version w1 tid v = (Inr True, w2)"
    and g2: "get_transaction w2 tid = (Inr (Some g2), w2)"
    and r2: "root_versions g2 = Some ((xs @ [VStr v]) @ [VStr v])"
    and k2: "\<forall>k. k \<noteq> ''rule_application_root_versions'' \<longrightarrow> map_of g2 k = map_of g1 k"
    by blast
  from k1 k2
  have "\<forall>k. k \<noteq> ''rule_application_root_versions'' \<longrightarrow>
          map_of g1 k = map_of g k \<and> map_of g2 k = map_of g k"
    by simp
  moreover from r2 have "root_versions g2 = Some (xs @ [VStr v, VStr v])"
    by simp
  ultimately show ?thesis
    using 1 g1 r1 2 g2 by blast
qed

theorem add_root_version_appends_witness:
  "get_transaction created_world first_id = (Inr (Some created_record), created_world)
   \<and> root_versions created_record = Some []
   \<and> (\<exists>w1 g1 w2 g2.
          add_rule_application_root_version created_world first_id ''v1'' = (Inr True, w1)
        \<and> get_transaction w1 first_id = (Inr (Some g1), w1)
        \<and> root_versions g1 = Some [VStr ''v1'']
        \<and> add_rule_application_root_version w1 first_id ''v1'' = (Inr True, w2)
        \<and> get_transaction w2 first_id = (Inr (Some g2), w2)
        \<and> root_versions g2 = Some [VStr ''v1'', VStr ''v1''])"
proof -
  have h: "root_versions created_record = Some []"
    by code_simp
  from add_root_version_appends [OF created_record_read h, of "''v1''"]
  obtain w1 g1 w2 g2 where
    "add_rule_application_root_version created_world first_id ''v1'' = (Inr True, w1)"
    "get_transaction w1 first_id = (Inr (Some g1), w1)"
    "root_versions g1 = Some ([] @ [VStr ''v1''])"
    "add_rule_application_root_version w1 first_id ''v1'' = (Inr True, w2)"
    "get_transaction w2 first_id = (Inr (Some g2), w2)"
    "root_versions g2 = Some ([] @ [VStr ''v1'', VStr ''v1''])"
    by (elim exE conjE)
  then have "\<exists>w1 g1 w2 g2.
          add_rule_application_root_version created_world first_id ''v1'' = (Inr True, w1)
        \<and> get_transaction w1 first_id = (Inr (Some g1), w1)
        \<and> root_versions g1 = Some [VStr ''v1'']
        \<and> add_rule_application_root_version w1 first_id ''v1'' = (Inr True, w2)
        \<and> get_transaction w2 first_id = (Inr (Some g2), w2)
        \<and> root_versions g2 = Some [VStr ''v1'', VStr ''v1'']"
    by (intro exI [of _ w1] exI [of _ g1] exI [of _ w2] exI [of _ g2]) simp
  with created_record_read h show ?thesis by (intro conjI)
qed


text \<open>
  C7. For a transaction that \<^verbatim>\<open>get_transaction\<close> returns, whose root-version list holds
  the version ids \<open>vs\<close> in this order, \<^verbatim>\<open>remove_rule_application_root_version\<close> with
  the id \<open>v\<close> leaves the list read back as \<open>vs\<close> without every occurrence of \<open>v\<close>, the
  other entries in their order, and no other field of the record changes. The call
  returns \<^verbatim>\<open>True\<close> exactly when \<open>v\<close> occurred in the list.
\<close>

theorem remove_root_version_removes_all:
  assumes got: "get_transaction w tid = (Inr (Some g), w)"
    and roots: "root_versions g = Some (map VStr vs)"
  shows "\<exists>w1 g1. remove_rule_application_root_version w tid v = (Inr (v \<in> set vs), w1)
          \<and> get_transaction w1 tid = (Inr (Some g1), w1)
          \<and> root_versions g1 = Some (map VStr (filter (\<lambda>x. x \<noteq> v) vs))
          \<and> (\<forall>k. k \<noteq> ''rule_application_root_versions'' \<longrightarrow> map_of g1 k = map_of g k)"
proof -
  let ?k = "''rule_application_root_versions''"
  let ?rest = "map VStr (filter (\<lambda>x. x \<noteq> v) vs)"
  from got obtain oid t where up: "store_down w = None" and oid: "ObjectId tid = Inr oid"
    and found: "List.find (matches ''_id'' (VOid oid)) (transactions w) = Some t"
    and str: "stringify_ids t = Inr g"
    by (auto simp: get_transaction_Some)
  from str have gk: "map_of g ?k = map_of t ?k"
    by (rule stringify_ids_other) simp_all
  have rem: "removeAll (VStr v) (map VStr vs) = ?rest"
    by (induction vs) auto
  show ?thesis
  proof (cases "map_of t ?k")
    case None
    with roots gk have vs: "vs = []"
      by (simp add: root_versions_def)
    from None have app: "apply_update (PullOp ?k (VStr v)) t = Inr t"
      by (simp add: apply_update_def)
    from update_by_id_found [OF up oid found app]
    obtain w1 where upd: "update_by_id w tid (PullOp ?k (VStr v)) = (Inr False, w1)"
      and up1: "store_down w1 = None"
      and found1: "List.find (matches ''_id'' (VOid oid)) (transactions w1) = Some t"
      by auto
    from up1 oid found1 str have "get_transaction w1 tid = (Inr (Some g), w1)"
      by (auto simp: get_transaction_Some)
    moreover from upd vs
    have "remove_rule_application_root_version w tid v = (Inr (v \<in> set vs), w1)"
      by (simp add: remove_rule_application_root_version_def)
    ultimately show ?thesis
      using roots vs by auto
  next
    case (Some x)
    with roots gk have x: "x = VArr (map VStr vs)"
      by (auto simp: root_versions_def split: val.splits)
    let ?t' = "AList.update ?k (VArr ?rest) t"
    from Some x rem have app: "apply_update (PullOp ?k (VStr v)) t = Inr ?t'"
      by (simp add: apply_update_def)
    have same: "map_of ?t' ''_id'' = map_of t ''_id''"
      by (simp add: update_conv')
    have "?rest = map VStr vs \<longleftrightarrow> v \<notin> set vs"
      by (auto simp: inj_map_eq_map inj_def filter_id_conv)
    with Some x have neq: "?t' \<noteq> t \<longleftrightarrow> v \<in> set vs"
      by (auto simp: update_eq_self)
    from update_by_id_found [OF up oid found app same] neq
    obtain w1 where upd: "update_by_id w tid (PullOp ?k (VStr v)) = (Inr (v \<in> set vs), w1)"
      and up1: "store_down w1 = None"
      and found1: "List.find (matches ''_id'' (VOid oid)) (transactions w1) = Some ?t'"
      by auto
    from stringify_ids_update_other [OF str, of ?k "VArr ?rest"]
    obtain g1 where str1: "stringify_ids ?t' = Inr g1"
      and g1: "map_of g1 = (map_of g)(?k \<mapsto> VArr ?rest)"
      by auto
    from up1 oid found1 str1 have "get_transaction w1 tid = (Inr (Some g1), w1)"
      by (auto simp: get_transaction_Some)
    moreover from upd
    have "remove_rule_application_root_version w tid v = (Inr (v \<in> set vs), w1)"
      by (simp add: remove_rule_application_root_version_def)
    moreover from g1 have "root_versions g1 = Some ?rest"
      by (simp add: root_versions_def)
    moreover from g1
    have "\<forall>k. k \<noteq> ?k \<longrightarrow> map_of g1 k = map_of g k"
      by simp
    ultimately show ?thesis by blast
  qed
qed

theorem remove_root_version_removes_all_witness:
  "get_transaction listed_world first_id = (Inr (Some listed_record), listed_world)
   \<and> root_versions listed_record = Some (map VStr [''v1'', ''v2'', ''v1''])
   \<and> (\<exists>w1 g1. remove_rule_application_root_version listed_world first_id ''v1''
                  = (Inr True, w1)
          \<and> get_transaction w1 first_id = (Inr (Some g1), w1)
          \<and> root_versions g1 = Some [VStr ''v2''])"
proof -
  have h: "root_versions listed_record = Some (map VStr [''v1'', ''v2'', ''v1''])"
    by code_simp
  from remove_root_version_removes_all [OF listed_record_read h, of "''v1''"]
  obtain w1 g1 where
    "remove_rule_application_root_version listed_world first_id ''v1''
       = (Inr (''v1'' \<in> set [''v1'', ''v2'', ''v1'']), w1)"
    "get_transaction w1 first_id = (Inr (Some g1), w1)"
    "root_versions g1 = Some (map VStr (filter (\<lambda>x. x \<noteq> ''v1'') [''v1'', ''v2'', ''v1'']))"
    by (elim exE conjE)
  then have "\<exists>w1 g1. remove_rule_application_root_version listed_world first_id ''v1''
                  = (Inr True, w1)
          \<and> get_transaction w1 first_id = (Inr (Some g1), w1)
          \<and> root_versions g1 = Some [VStr ''v2'']"
    by (intro exI [of _ w1] exI [of _ g1]) simp
  with listed_record_read h show ?thesis by (intro conjI)
qed

subsection \<open>Deletion\<close>

lemma wf_matches_id:
  "wf_transaction d \<Longrightarrow>
     matches ''_id'' (VOid oid) d \<longleftrightarrow> map_of d ''_id'' = Some (VOid oid)"
  by (auto simp: wf_transaction_def matches_def split: option.splits val.splits)

text \<open>In a well-formed collection the document deleted was the only one with its id.\<close>

lemma delete_first_unique:
  assumes "list_all wf_transaction ds"
    and "distinct (map (\<lambda>d. map_of d ''_id'') ds)"
    and "List.find (matches ''_id'' (VOid oid)) ds = Some t"
  shows "\<exists>ds'. delete_first (matches ''_id'' (VOid oid)) ds = (1, ds')
           \<and> Suc (length ds') = length ds
           \<and> List.find (matches ''_id'' (VOid oid)) ds' = None"
  using assms
proof (induction ds)
  case Nil
  then show ?case by simp
next
  case (Cons d ds)
  show ?case
  proof (cases "matches ''_id'' (VOid oid) d")
    case True
    with Cons.prems have "map_of d ''_id'' = Some (VOid oid)"
      by (simp add: wf_matches_id)
    with Cons.prems have "\<forall>x\<in>set ds. \<not> matches ''_id'' (VOid oid) x"
      by (force simp: list_all_iff wf_matches_id image_iff)
    then have "List.find (matches ''_id'' (VOid oid)) ds = None"
      by (simp add: find_None_iff)
    with True show ?thesis by simp
  next
    case False
    with Cons show ?thesis by auto
  qed
qed

lemma delete_first_count:
  "delete_first P ds = (n, ds') \<Longrightarrow>
     (n = 0 \<and> ds' = ds) \<or> (n = 1 \<and> Suc (length ds') = length ds)"
proof (induction ds arbitrary: n ds')
  case Nil
  then show ?case by simp
next
  case (Cons d ds)
  then show ?case
    by (cases "P d"; cases "delete_first P ds") auto
qed

lemma delete_transaction_removed:
  assumes "delete_transaction w i = (Inr True, w')"
  shows "Suc (length (transactions w')) = length (transactions w)"
proof -
  from assms obtain oid where oid: "ObjectId i = Inr oid"
    by (cases "ObjectId i")
       (auto simp: delete_transaction_def delete_transaction_try_def
          elim!: except_PyMongoError.elims)
  from assms oid have up: "store_down w = None"
    by (cases "store_down w")
       (auto simp: delete_transaction_def delete_transaction_try_def delete_one_def)
  obtain n ds' where d: "delete_first (matches ''_id'' (VOid oid)) (transactions w) = (n, ds')"
    by (cases "delete_first (matches ''_id'' (VOid oid)) (transactions w)")
  with assms oid up have "0 < n" and "transactions w' = ds'"
    by (auto simp: delete_transaction_def delete_transaction_try_def delete_one_def)
  with delete_first_count [OF d] show ?thesis by auto
qed

text \<open>
  C9. In a well-formed collection, for an id under which \<^verbatim>\<open>get_transaction\<close> returns a
  transaction, \<^verbatim>\<open>delete_transaction\<close> returns \<^verbatim>\<open>True\<close> and removes one document, and
  \<^verbatim>\<open>get_transaction\<close> on the same id afterwards returns \<^verbatim>\<open>None\<close>, whether the store is
  then up or down. On any collection and any id, a result of \<^verbatim>\<open>True\<close> means that one
  document was removed.
\<close>

theorem delete_then_get_not_found:
  assumes wf: "wf_store (transactions w)"
    and got: "get_transaction w tid = (Inr (Some g), w)"
  shows "(\<exists>w1. delete_transaction w tid = (Inr True, w1)
            \<and> Suc (length (transactions w1)) = length (transactions w)
            \<and> (\<forall>f. fst (get_transaction (w1\<lparr>store_down := f\<rparr>) tid) = Inr None))
       \<and> (\<forall>w0 i w0'. delete_transaction w0 i = (Inr True, w0') \<longrightarrow>
              Suc (length (transactions w0')) = length (transactions w0))"
proof -
  from got obtain oid t where up: "store_down w = None" and oid: "ObjectId tid = Inr oid"
    and found: "List.find (matches ''_id'' (VOid oid)) (transactions w) = Some t"
    by (auto simp: get_transaction_Some)
  from wf have "list_all wf_transaction (transactions w)"
    and "distinct (map (\<lambda>d. map_of d ''_id'') (transactions w))"
    by (simp_all add: wf_store_def)
  from delete_first_unique [OF this found]
  obtain ds' where d: "delete_first (matches ''_id'' (VOid oid)) (transactions w) = (1, ds')"
    and len: "Suc (length ds') = length (transactions w)"
    and gone: "List.find (matches ''_id'' (VOid oid)) ds' = None"
    by blast
  let ?w1 = "w\<lparr>transactions := ds'\<rparr>"
  from up oid d have del: "delete_transaction w tid = (Inr True, ?w1)"
    by (simp add: delete_transaction_def delete_transaction_try_def delete_one_def)
  have "fst (get_transaction (?w1\<lparr>store_down := f\<rparr>) tid) = Inr None" for f
    using oid gone
    by (cases f) (simp_all add: get_transaction_def get_transaction_try_def find_one_def)
  with del len
  have "\<exists>w1. delete_transaction w tid = (Inr True, w1)
            \<and> Suc (length (transactions w1)) = length (transactions w)
            \<and> (\<forall>f. fst (get_transaction (w1\<lparr>store_down := f\<rparr>) tid) = Inr None)"
    by auto
  with delete_transaction_removed show ?thesis by blast
qed

theorem delete_then_get_not_found_witness:
  "wf_store (transactions created_world)
   \<and> get_transaction created_world first_id = (Inr (Some created_record), created_world)
   \<and> (\<exists>w1. delete_transaction created_world first_id = (Inr True, w1)
          \<and> Suc (length (transactions w1)) = length (transactions created_world)
          \<and> (\<forall>f. fst (get_transaction (w1\<lparr>store_down := f\<rparr>) first_id) = Inr None))"
proof -
  have h: "wf_store (transactions created_world)"
    by code_simp
  from delete_then_get_not_found [OF h created_record_read]
  have "\<exists>w1. delete_transaction created_world first_id = (Inr True, w1)
          \<and> Suc (length (transactions w1)) = length (transactions created_world)
          \<and> (\<forall>f. fst (get_transaction (w1\<lparr>store_down := f\<rparr>) first_id) = Inr None)"
    by (rule conjunct1)
  with h created_record_read show ?thesis by (intro conjI)
qed


subsection \<open>Well-formedness is kept\<close>

lemma wf_store_ids:
  assumes same: "map ids ds' = map ids ds" and wf: "wf_store ds"
  shows "wf_store ds'"
proof -
  let ?ok = "\<lambda>p. case p of (Some (VOid i), Some (VOid u)) \<Rightarrow> True | _ \<Rightarrow> False"
  have by_ids: "list_all wf_transaction xs = list_all ?ok (map ids xs)" for xs
    by (induction xs)
       (auto simp: wf_transaction_def ids_def split: option.splits val.splits)
  have firsts: "map (\<lambda>d. map_of d ''_id'') xs = map fst (map ids xs)" for xs
    by (induction xs) (simp_all add: ids_def)
  have "list_all wf_transaction ds' = list_all wf_transaction ds"
    by (simp only: by_ids same)
  moreover have "map (\<lambda>d. map_of d ''_id'') ds' = map (\<lambda>d. map_of d ''_id'') ds"
    by (simp only: firsts same)
  ultimately show ?thesis
    using wf by (simp only: wf_store_def)
qed

lemma apply_push_pull_ids:
  assumes "apply_update u d = Inr d'"
    and "u = PushOp ''rule_application_root_versions'' v
         \<or> u = PullOp ''rule_application_root_versions'' v"
  shows "ids d' = ids d"
  using assms
  by (auto simp: apply_update_def ids_def update_conv' split: option.splits val.splits)

lemma update_by_id_ids:
  assumes step: "\<And>d d'. d \<in> set (transactions w) \<Longrightarrow> apply_update u d = Inr d' \<Longrightarrow> ids d' = ids d"
  shows "map ids (transactions (snd (update_by_id w tid u))) = map ids (transactions w)"
proof (cases "ObjectId tid")
  case (Inl e)
  then show ?thesis by (simp add: update_by_id_def)
next
  case (Inr oid)
  show ?thesis
  proof (cases "store_down w")
    case (Some e)
    with Inr show ?thesis by (simp add: update_by_id_def update_one_def)
  next
    case None
    show ?thesis
    proof (cases "update_first (matches ''_id'' (VOid oid)) (apply_update u) (transactions w)")
      case (Inl e)
      with Inr None show ?thesis by (simp add: update_by_id_def update_one_def)
    next
      case R: (Inr r)
      obtain n ds' where r: "r = (n, ds')" by (cases r)
      from R r step have "map ids ds' = map ids (transactions w)"
        by (auto intro: update_first_ids)
      with Inr None R r show ?thesis by (simp add: update_by_id_def update_one_def)
    qed
  qed
qed

lemma delete_first_wf:
  "delete_first P ds = (n, ds') \<Longrightarrow> wf_store ds \<Longrightarrow> wf_store ds'"
proof (induction ds arbitrary: n ds')
  case Nil
  then show ?case by simp
next
  case (Cons d ds)
  show ?case
  proof (cases "P d")
    case True
    with Cons.prems show ?thesis by (auto simp: wf_store_def)
  next
    case False
    with Cons.prems(1) obtain ds1 where 1: "delete_first P ds = (n, ds1)" and 2: "ds' = d # ds1"
      by (auto split: prod.splits)
    from Cons.prems(2) have "wf_store ds" by (simp add: wf_store_def)
    from Cons.IH [OF 1 this] have wf1: "wf_store ds1" .
    from 1 have "set ds1 \<subseteq> set ds"
    proof (induction ds arbitrary: n ds1)
      case Nil
      then show ?case by simp
    next
      case (Cons a ds)
      then show ?case by (cases "P a") (auto split: prod.splits)
    qed
    with Cons.prems(2) wf1 2 show ?thesis
      by (auto simp: wf_store_def)
  qed
qed

lemma insert_new_wf:
  assumes wf: "wf_store ds"
    and unused: "\<not> list_ex (matches ''_id'' (VOid i)) ds"
    and owner: "map_of d ''user_id'' = Some (VOid u)"
  shows "wf_store (ds @ [(''_id'', VOid i) # d])"
proof -
  from wf unused have "Some (VOid i) \<notin> set (map (\<lambda>d. map_of d ''_id'') ds)"
    by (auto simp: wf_store_def list_all_iff list_ex_iff wf_matches_id)
  with wf owner show ?thesis
    by (auto simp: wf_store_def wf_transaction_def)
qed

lemma except_snd_transactions:
  "transactions (snd (except_PyMongoError msg s p)) = transactions (snd p)"
  by (cases "(msg, s, p)" rule: except_PyMongoError.cases) auto

text \<open>Every method that writes keeps the collection well-formed.\<close>

lemma wf_store_kept:
  assumes wf: "wf_store (transactions w)"
  shows "wf_store (transactions (snd (create_transaction w i name base_file_path primary secondary)))
       \<and> wf_store (transactions (snd (add_new_column_datatype w i column_name dtype)))
       \<and> wf_store (transactions (snd (fst (update_transaction w i update_fields))))
       \<and> wf_store (transactions (snd (delete_transaction w i)))
       \<and> wf_store (transactions (snd (set_base_file w i version_id)))
       \<and> wf_store (transactions (snd (set_preprocessed_file w i version_id)))
       \<and> wf_store (transactions (snd (change_transaction_name w i new_name)))
       \<and> wf_store (transactions (snd (update_cutoff_date w i cutoff_date)))
       \<and> wf_store (transactions (snd (add_rule_application_root_version w i version_id)))
       \<and> wf_store (transactions (snd (remove_rule_application_root_version w i version_id)))"
proof -
  from wf have all: "list_all wf_transaction (transactions w)"
    by (simp add: wf_store_def)
  have set_op: "wf_store (transactions (snd (update_by_id w i (SetOp kvs))))"
    if "\<forall>kv\<in>set kvs. fst kv \<noteq> ''_id'' \<and> fst kv \<noteq> ''user_id''" for kvs
    using update_by_id_set_ids [OF all that, of i] wf by (rule wf_store_ids)
  have list_op: "wf_store (transactions (snd (update_by_id w i u)))"
    if "u = PushOp ''rule_application_root_versions'' v
        \<or> u = PullOp ''rule_application_root_versions'' v" for u v
  proof -
    from that have "map ids (transactions (snd (update_by_id w i u))) = map ids (transactions w)"
      by (intro update_by_id_ids) (rule apply_push_pull_ids)
    then show ?thesis using wf by (rule wf_store_ids)
  qed
  have 1: "wf_store (transactions (snd (create_transaction w i name base_file_path primary
              secondary)))"
  proof (cases "ObjectId i")
    case (Inl e)
    with wf show ?thesis
      by (simp add: create_transaction_def create_transaction_try_def except_snd_transactions)
  next
    case (Inr uid)
    show ?thesis
    proof (cases "store_down w")
      case (Some e)
      with Inr wf show ?thesis
        by (cases primary; cases secondary)
           (simp_all add: create_transaction_def create_transaction_try_def insert_one_def
              add_timestamps_def except_snd_transactions)
    next
      case None
      show ?thesis
      proof (cases "list_ex (matches ''_id'' (VOid (new_ObjectId (next_oid w)))) (transactions w)")
        case True
        with Inr None wf show ?thesis
          by (cases primary; cases secondary)
             (simp_all add: create_transaction_def create_transaction_try_def insert_one_def
                add_timestamps_def except_snd_transactions)
      next
        case False
        have "wf_store (transactions w @ [(''_id'', VOid (new_ObjectId (next_oid w))) # d])"
          if "map_of d ''user_id'' = Some (VOid uid)" for d
          using wf False that by (rule insert_new_wf)
        with Inr None False show ?thesis
          by (cases primary; cases secondary)
             (simp_all add: create_transaction_def create_transaction_try_def insert_one_def
                add_timestamps_def except_snd_transactions)
      qed
    qed
  qed
  have 2: "wf_store (transactions (snd (delete_transaction w i)))"
  proof (cases "ObjectId i")
    case (Inl e)
    with wf show ?thesis
      by (simp add: delete_transaction_def delete_transaction_try_def except_snd_transactions)
  next
    case (Inr oid)
    obtain n ds' where d: "delete_first (matches ''_id'' (VOid oid)) (transactions w) = (n, ds')"
      by (cases "delete_first (matches ''_id'' (VOid oid)) (transactions w)")
    from delete_first_wf [OF d wf] Inr d wf show ?thesis
      by (cases "store_down w")
         (simp_all add: delete_transaction_def delete_transaction_try_def delete_one_def
            except_snd_transactions)
  qed
  have 3: "wf_store (transactions (snd (fst (update_transaction w i update_fields))))"
    using set_op [of "add_timestamps (clock w)
               (AList.delete ''user_id'' (AList.delete ''_id'' update_fields)) True"]
      stripped_keys
    by (simp add: update_transaction_def Let_def except_snd_transactions)
  show ?thesis
    using 1 2 3 set_op list_op
    by (simp add: add_new_column_datatype_def set_base_file_def set_preprocessed_file_def
          change_transaction_name_def update_cutoff_date_def add_timestamps_def
          add_rule_application_root_version_def remove_rule_application_root_version_def
          except_snd_transactions)
qed


subsection \<open>Timestamps\<close>

text \<open>
  C3. The claim: every successful mutation refreshes \<^verbatim>\<open>updated_at\<close>. A transaction is
  created at time 100 and given a base file at time 150, which sets \<^verbatim>\<open>updated_at\<close> to
  150. Adding a root version at time 200 and removing it at time 300 both succeed and
  change the list, and \<^verbatim>\<open>updated_at\<close> is still 150 after each: \<^verbatim>\<open>$push\<close> and
  \<^verbatim>\<open>$pull\<close> are sent without a timestamp.
\<close>

theorem root_version_methods_keep_updated_at:
  "(let w1 = snd (create_transaction fresh_world owner_id ''loans'' ''/data'' None None);
        w2 = snd (set_base_file (w1\<lparr>clock := 150\<rparr>) first_id ''v7'');
        added = add_rule_application_root_version (w2\<lparr>clock := 200\<rparr>) first_id ''v1'';
        removed = remove_rule_application_root_version ((snd added)\<lparr>clock := 300\<rparr>)
                    first_id ''v1''
    in map (\<lambda>t. map_of t ''updated_at'') (transactions w2) = [Some (VTime 150)]
     \<and> fst added = Inr True
     \<and> map (\<lambda>t. map_of t ''rule_application_root_versions'') (transactions (snd added))
         = [Some (VArr [VStr ''v1''])]
     \<and> map (\<lambda>t. map_of t ''updated_at'') (transactions (snd added)) = [Some (VTime 150)]
     \<and> fst removed = Inr True
     \<and> map (\<lambda>t. map_of t ''rule_application_root_versions'') (transactions (snd removed))
         = [Some (VArr [])]
     \<and> map (\<lambda>t. map_of t ''updated_at'') (transactions (snd removed)) = [Some (VTime 150)])"
  by code_simp

subsection \<open>Listing by owner\<close>

text \<open>
  C6. The claim: every listed entry carries \<^verbatim>\<open>base_file_location\<close>, the empty string
  when the version lookup returns nothing. A transaction whose \<^verbatim>\<open>base_file\<close> is set
  to a version the lookup does not find is listed without the field: the inner
  \<^verbatim>\<open>if base_version:\<close> has no \<^verbatim>\<open>else\<close>.
\<close>

theorem listing_omits_location_when_lookup_misses:
  "(let w1 = snd (create_transaction fresh_world owner_id ''loans'' ''/data'' None None);
        w2 = snd (set_base_file w1 first_id ''v7'')
    in case get_transactions_by_user (\<lambda>v. None) w2 owner_id of
         (Inr [t], w) \<Rightarrow>
            map_of t ''user_id'' = Some (VStr owner_id)
          \<and> map_of t ''base_file'' = Some (VStr ''v7'')
          \<and> map_of t ''base_file_location'' = None
       | _ \<Rightarrow> False)"
  by code_simp

end
